theory Spec2Isabelle
  imports Complex_Main "HOL-Library.AList"
begin

section \<open>Data model of \<open>src/App.tsx\<close>\<close>

text \<open>
  JavaScript numbers are modelled as \<^typ>\<open>real\<close>: rounding, NaN and the infinities of
  IEEE doubles are outside the model.  Strings are \<^typ>\<open>string\<close>.  The shape kind of an
  object is kept as the string the running program holds (the value of a select element
  cast to \<open>ShapeType\<close>), so that the \<open>default\<close> branch of \<open>createGeometry\<close> is a branch of
  the model.
\<close>

type_synonym Vec3 = "real \<times> real \<times> real"

type_synonym ShapeType = string

datatype MovementMode = none | straight | left_right | up_down | returning | orbit

datatype TextureType = noise | no_texture | checkerboard | dots | stripes

record ShapeObject =
  obj_id :: string
  type :: ShapeType
  position :: Vec3
  rotation :: Vec3
  scale :: Vec3
  color :: string
  texture :: TextureType
  metalness :: real
  roughness :: real
  emissive :: string
  emissiveIntensity :: real
  opacity :: real
  radius :: real
  height :: real
  name :: string
  isAnimated :: bool
  movementMode :: MovementMode
  movementSpeed :: real
  movementRange :: real
  originalPosition :: Vec3

subsection \<open>Geometry descriptions built by \<open>createGeometry\<close>\<close>

text \<open>One constructor per three.js geometry class the source instantiates, with the
  constructor arguments in the order of the call.\<close>

datatype Geometry =
    SphereGeometry real nat nat
  | CylinderGeometry real real real nat
  | BoxGeometry real real real
  | ConeGeometry real real nat
  | TorusGeometry real real nat nat
  | TetrahedronGeometry real
  | DodecahedronGeometry real
  | IcosahedronGeometry real

definition createGeometry :: "ShapeType \<Rightarrow> real \<Rightarrow> real \<Rightarrow> Geometry" where
  "createGeometry ty r h =
    (if ty = ''sphere'' then SphereGeometry r 64 64
     else if ty = ''cylinder'' then CylinderGeometry r r h 64
     else if ty = ''cube'' then BoxGeometry (r * 2) (r * 2) (r * 2)
     else if ty = ''cone'' then ConeGeometry r h 64
     else if ty = ''torus'' then TorusGeometry r (r / 3) 64 64
     else if ty = ''pyramid'' then ConeGeometry r h 4
     else if ty = ''prism'' then CylinderGeometry r r h 3
     else if ty = ''pentagonalPrism'' then CylinderGeometry r r h 5
     else if ty = ''hexagonalPrism'' then CylinderGeometry r r h 6
     else if ty = ''octagonalPrism'' then CylinderGeometry r r h 8
     else if ty = ''tetrahedron'' then TetrahedronGeometry r
     else if ty = ''dodecahedron'' then DodecahedronGeometry r
     else if ty = ''icosahedron'' then IcosahedronGeometry r
     else SphereGeometry r 64 64)"

text \<open>The thirteen members of the \<open>ShapeType\<close> union.\<close>

definition shapeTypes :: "ShapeType list" where
  "shapeTypes =
    [''sphere'', ''cylinder'', ''cube'', ''cone'', ''torus'', ''pyramid'', ''prism'',
     ''pentagonalPrism'', ''hexagonalPrism'', ''octagonalPrism'', ''tetrahedron'',
     ''dodecahedron'', ''icosahedron'']"

section \<open>The object store: React state \<open>objects\<close> and \<open>selectedId\<close>\<close>

datatype TransformMode = Translate | Rotate | Scale

record AppState =
  isInitialized :: bool
  objects :: "ShapeObject list"
  selectedId :: "string option"
  transformMode :: TransformMode
  showGizmo :: bool

text \<open>The initial value of the \<open>objects\<close> state and of \<open>selectedId\<close>.\<close>

definition primaryTorus :: ShapeObject where
  "primaryTorus =
    \<lparr> obj_id = ''1'', type = ''torus'', position = (0, 0, 0), rotation = (0, 0, 0),
      scale = (1, 1, 1), color = ''#6366f1'', texture = noise, metalness = 0.5,
      roughness = 0.2, emissive = ''#000000'', emissiveIntensity = 0, opacity = 1,
      radius = 3, height = 3, name = ''Primary Torus'', isAnimated = False,
      movementMode = none, movementSpeed = 1, movementRange = 5,
      originalPosition = (0, 0, 0) \<rparr>"

definition initialState :: AppState where
  "initialState =
    \<lparr> isInitialized = False, objects = [primaryTorus], selectedId = Some ''1'',
      transformMode = Translate, showGizmo = True \<rparr>"

subsection \<open>\<open>updateSelectedObject\<close>\<close>

text \<open>A \<open>Partial<ShapeObject>\<close> literal is a list of field assignments; the object spread
  \<open>{ ...o, ...updates }\<close> applies them in order, a later key overriding an earlier one.\<close>

datatype FieldUpdate =
    Set_id string
  | Set_type ShapeType
  | Set_position Vec3
  | Set_rotation Vec3
  | Set_scale Vec3
  | Set_color string
  | Set_texture TextureType
  | Set_metalness real
  | Set_roughness real
  | Set_emissive string
  | Set_emissiveIntensity real
  | Set_opacity real
  | Set_radius real
  | Set_height real
  | Set_name string
  | Set_isAnimated bool
  | Set_movementMode MovementMode
  | Set_movementSpeed real
  | Set_movementRange real
  | Set_originalPosition Vec3

fun assign :: "ShapeObject \<Rightarrow> FieldUpdate \<Rightarrow> ShapeObject" where
  "assign ob (Set_id v) = ob\<lparr>obj_id := v\<rparr>"
| "assign ob (Set_type v) = ob\<lparr>type := v\<rparr>"
| "assign ob (Set_position v) = ob\<lparr>position := v\<rparr>"
| "assign ob (Set_rotation v) = ob\<lparr>rotation := v\<rparr>"
| "assign ob (Set_scale v) = ob\<lparr>scale := v\<rparr>"
| "assign ob (Set_color v) = ob\<lparr>color := v\<rparr>"
| "assign ob (Set_texture v) = ob\<lparr>texture := v\<rparr>"
| "assign ob (Set_metalness v) = ob\<lparr>metalness := v\<rparr>"
| "assign ob (Set_roughness v) = ob\<lparr>roughness := v\<rparr>"
| "assign ob (Set_emissive v) = ob\<lparr>emissive := v\<rparr>"
| "assign ob (Set_emissiveIntensity v) = ob\<lparr>emissiveIntensity := v\<rparr>"
| "assign ob (Set_opacity v) = ob\<lparr>opacity := v\<rparr>"
| "assign ob (Set_radius v) = ob\<lparr>radius := v\<rparr>"
| "assign ob (Set_height v) = ob\<lparr>height := v\<rparr>"
| "assign ob (Set_name v) = ob\<lparr>name := v\<rparr>"
| "assign ob (Set_isAnimated v) = ob\<lparr>isAnimated := v\<rparr>"
| "assign ob (Set_movementMode v) = ob\<lparr>movementMode := v\<rparr>"
| "assign ob (Set_movementSpeed v) = ob\<lparr>movementSpeed := v\<rparr>"
| "assign ob (Set_movementRange v) = ob\<lparr>movementRange := v\<rparr>"
| "assign ob (Set_originalPosition v) = ob\<lparr>originalPosition := v\<rparr>"

definition spread :: "ShapeObject \<Rightarrow> FieldUpdate list \<Rightarrow> ShapeObject" where
  "spread ob updates = foldl assign ob updates"

text \<open>\<open>if (!selectedId) return;\<close>: \<open>null\<close> and the empty string are both falsy.\<close>

definition updateSelectedObject :: "FieldUpdate list \<Rightarrow> AppState \<Rightarrow> AppState" where
  "updateSelectedObject updates st =
    (case selectedId st of
       None \<Rightarrow> st
     | Some sid \<Rightarrow>
         if sid = [] then st
         else st\<lparr>objects :=
                 map (\<lambda>ob. if obj_id ob = sid then spread ob updates else ob) (objects st)\<rparr>)"

subsection \<open>\<open>addObject\<close>\<close>

text \<open>Digits of a natural number in a radix up to 36, as \<open>Number.prototype.toString\<close>
  prints an integer: \<open>0\<close>..\<open>9\<close> then \<open>a\<close>..\<open>z\<close>.\<close>

definition digitChar :: "nat \<Rightarrow> char" where
  "digitChar d = (if d < 10 then char_of (48 + d) else char_of (87 + d))"

fun natToString :: "nat \<Rightarrow> nat \<Rightarrow> string" where
  "natToString radix n =
    (if radix < 2 \<or> n < radix then [digitChar n]
     else natToString radix (n div radix) @ [digitChar (n mod radix)])"

definition intToString :: "nat \<Rightarrow> int \<Rightarrow> string" where
  "intToString radix i =
    (if i < 0 then CHR ''-'' # natToString radix (nat (- i)) else natToString radix (nat i))"

definition padStart :: "nat \<Rightarrow> char \<Rightarrow> string \<Rightarrow> string" where
  "padStart n c s = replicate (n - length s) c @ s"

text \<open>
  \<open>addObject\<close> calls \<open>Math.random()\<close> six times, in the evaluation order of the object
  literal: once for \<open>newId\<close>, twice for \<open>position\<close>, once for \<open>color\<close> and twice for
  \<open>originalPosition\<close>.  \<open>rnd k\<close> is the result of the \<open>k\<close>-th call.  The base-36 printing
  of a fraction, \<open>x.toString(36).substr(2, 9)\<close>, belongs to the JavaScript runtime and is
  the parameter \<open>idString\<close>.
\<close>

definition addObject :: "(real \<Rightarrow> string) \<Rightarrow> (nat \<Rightarrow> real) \<Rightarrow> AppState \<Rightarrow> AppState" where
  "addObject idString rnd st =
    (let newId = idString (rnd 0);
         newObj =
           \<lparr> obj_id = newId, type = ''sphere'',
             position = ((rnd 1 - 0.5) * 10, 2, (rnd 2 - 0.5) * 10),
             rotation = (0, 0, 0), scale = (1, 1, 1),
             color = CHR ''#'' # padStart 6 CHR ''0'' (intToString 16 \<lfloor>rnd 3 * 16777215\<rfloor>),
             texture = no_texture, metalness = 0.5, roughness = 0.5,
             emissive = ''#000000'', emissiveIntensity = 0, opacity = 1,
             radius = 2, height = 2,
             name = ''Object-'' @ natToString 10 (length (objects st) + 1),
             isAnimated = False, movementMode = none, movementSpeed = 1, movementRange = 5,
             originalPosition = ((rnd 4 - 0.5) * 10, 2, (rnd 5 - 0.5) * 10) \<rparr>
     in st\<lparr>objects := objects st @ [newObj], selectedId := Some newId\<rparr>)"

subsection \<open>\<open>deleteObject\<close>\<close>

text \<open>
  \<open>newObjects[0].id\<close> throws a \<open>TypeError\<close> when \<open>newObjects\<close> is empty; \<open>setObjects\<close> has
  been called by then, so the emptied list is still committed.  The result is the next
  state and the exception, if any.
\<close>

datatype JsError = TypeError

definition deleteObject :: "string \<Rightarrow> AppState \<Rightarrow> AppState \<times> JsError option" where
  "deleteObject i st =
    (if length (objects st) \<le> 1 then (st, None)
     else
       let newObjects = filter (\<lambda>ob. obj_id ob \<noteq> i) (objects st);
           st1 = st\<lparr>objects := newObjects\<rparr>
       in if selectedId st = Some i then
            (case newObjects of
               [] \<Rightarrow> (st1, Some TypeError)
             | ob # _ \<Rightarrow> (st1\<lparr>selectedId := Some (obj_id ob)\<rparr>, None))
          else (st1, None))"

text \<open>A sequence of delete requests; an uncaught exception in one click handler does not
  stop later clicks.\<close>

fun deleteObjects :: "string list \<Rightarrow> AppState \<Rightarrow> AppState" where
  "deleteObjects [] st = st"
| "deleteObjects (i # is) st = deleteObjects is (fst (deleteObject i st))"

section \<open>Live scene nodes: \<open>meshesRef\<close> and the scene graph\<close>

datatype Side = FrontSide | BackSide | DoubleSide

text \<open>The fields of \<open>MeshStandardMaterial\<close> the source sets.  A texture handle of
  \<open>texturesRef\<close> is identified by its key.\<close>

record Material =
  mat_color :: string
  mat_metalness :: real
  mat_roughness :: real
  mat_emissive :: string
  mat_emissiveIntensity :: real
  mat_transparent :: bool
  mat_opacity :: real
  mat_map :: "TextureType option"
  mat_side :: Side

record Mesh =
  mesh_position :: Vec3
  mesh_rotation :: Vec3
  mesh_scale :: Vec3
  geometry :: Geometry
  material :: Material
  castShadow :: bool
  receiveShadow :: bool
  userData :: "ShapeType \<times> real \<times> real"

text \<open>
  \<open>meshesRef.current\<close> is a JavaScript \<open>Map\<close>: an association list in insertion order,
  read with \<^const>\<open>map_of\<close>, written with \<^const>\<open>AList.update\<close> (an existing key keeps
  its place, a new key goes to the end) and \<^const>\<open>AList.delete\<close>.  Each mesh is
  registered under one key and added to the scene once, so the children of the scene that
  are object meshes are listed by key.  \<open>attached\<close> is the mesh the transform gizmo holds.
\<close>

record Engine =
  meshes :: "(string \<times> Mesh) list"
  scene :: "string list"
  attached :: "string option"
  gizmoMode :: TransformMode

definition initialEngine :: Engine where
  "initialEngine = \<lparr> meshes = [], scene = [], attached = None, gizmoMode = Translate \<rparr>"

text \<open>What a reconciliation pass does to graphics resources, in order.\<close>

datatype Event =
    GeometryCreated string Geometry
  | MaterialCreated string
  | SceneAdd string
  | SceneRemove string
  | GeometryDisposed string Geometry
  | MaterialDisposed string

subsection \<open>The \<open>Update Objects\<close> effect\<close>

text \<open>First loop: \<open>meshesRef.current.forEach\<close>, removing the meshes whose id is not in
  \<open>currentIds\<close>.\<close>

definition removeMesh :: "string \<Rightarrow> Mesh \<Rightarrow> Engine \<Rightarrow> Engine \<times> Event list" where
  "removeMesh k mesh e =
    (e\<lparr>scene := removeAll k (scene e), meshes := AList.delete k (meshes e)\<rparr>,
     [SceneRemove k, GeometryDisposed k (geometry mesh), MaterialDisposed k])"

fun removeStale :: "string list \<Rightarrow> (string \<times> Mesh) list \<Rightarrow> Engine \<Rightarrow> Engine \<times> Event list" where
  "removeStale currentIds [] e = (e, [])"
| "removeStale currentIds ((k, mesh) # rest) e =
    (if k \<notin> set currentIds then
       (let (e1, ev1) = removeMesh k mesh e;
            (e2, ev2) = removeStale currentIds rest e1
        in (e2, ev1 @ ev2))
     else removeStale currentIds rest e)"

text \<open>Second loop: \<open>objects.forEach\<close>, creating or updating the mesh of each object.\<close>

definition newMaterial :: "ShapeObject \<Rightarrow> Material" where
  "newMaterial ob =
    \<lparr> mat_color = color ob, mat_metalness = metalness ob, mat_roughness = roughness ob,
      mat_emissive = emissive ob, mat_emissiveIntensity = emissiveIntensity ob,
      mat_transparent = (opacity ob < 1), mat_opacity = opacity ob,
      mat_map = (if texture ob \<noteq> no_texture then Some (texture ob) else None),
      mat_side = DoubleSide \<rparr>"

definition newMesh :: "ShapeObject \<Rightarrow> Mesh" where
  "newMesh ob =
    \<lparr> mesh_position = (0, 0, 0), mesh_rotation = (0, 0, 0), mesh_scale = (1, 1, 1),
      geometry = createGeometry (type ob) (radius ob) (height ob),
      material = newMaterial ob, castShadow = True, receiveShadow = True,
      userData = (type ob, radius ob, height ob) \<rparr>"

definition updateMaterial :: "ShapeObject \<Rightarrow> Material \<Rightarrow> Material" where
  "updateMaterial ob mat =
    mat\<lparr> mat_color := color ob, mat_metalness := metalness ob, mat_roughness := roughness ob,
         mat_emissive := emissive ob, mat_emissiveIntensity := emissiveIntensity ob,
         mat_opacity := opacity ob, mat_transparent := (opacity ob < 1),
         mat_map := (if texture ob \<noteq> no_texture then Some (texture ob) else None) \<rparr>"

definition updateBasicProps :: "ShapeObject \<Rightarrow> Mesh \<Rightarrow> Mesh" where
  "updateBasicProps ob mesh =
    mesh\<lparr> mesh_position := position ob, mesh_rotation := rotation ob, mesh_scale := scale ob,
          material := updateMaterial ob (material mesh) \<rparr>"

definition syncObject :: "ShapeObject \<Rightarrow> Engine \<Rightarrow> Engine \<times> Event list" where
  "syncObject ob e =
    (case map_of (meshes e) (obj_id ob) of
       None \<Rightarrow>
         (e\<lparr>scene := scene e @ [obj_id ob],
            meshes := AList.update (obj_id ob) (newMesh ob) (meshes e)\<rparr>,
          [GeometryCreated (obj_id ob) (createGeometry (type ob) (radius ob) (height ob)),
           MaterialCreated (obj_id ob), SceneAdd (obj_id ob)])
     | Some mesh0 \<Rightarrow>
         (let mesh = updateBasicProps ob mesh0;
              (currentType, currentRadius, currentHeight) = userData mesh
          in if currentType \<noteq> type ob \<or> currentRadius \<noteq> radius ob \<or> currentHeight \<noteq> height ob
             then
               (e\<lparr>meshes :=
                    AList.update (obj_id ob)
                      (mesh\<lparr>geometry := createGeometry (type ob) (radius ob) (height ob),
                            userData := (type ob, radius ob, height ob)\<rparr>)
                      (meshes e)\<rparr>,
                [GeometryDisposed (obj_id ob) (geometry mesh),
                 GeometryCreated (obj_id ob) (createGeometry (type ob) (radius ob) (height ob))])
             else (e\<lparr>meshes := AList.update (obj_id ob) mesh (meshes e)\<rparr>, [])))"

fun syncObjects :: "ShapeObject list \<Rightarrow> Engine \<Rightarrow> Engine \<times> Event list" where
  "syncObjects [] e = (e, [])"
| "syncObjects (ob # obs) e =
    (let (e1, ev1) = syncObject ob e;
         (e2, ev2) = syncObjects obs e1
     in (e2, ev1 @ ev2))"

text \<open>Last step: the transform controls follow the selection.  \<open>selectedId && showGizmo\<close>
  is falsy for \<open>null\<close> and for the empty string.\<close>

definition updateTransformControls :: "AppState \<Rightarrow> Engine \<Rightarrow> Engine" where
  "updateTransformControls st e =
    (case selectedId st of
       None \<Rightarrow> e\<lparr>attached := None\<rparr>
     | Some sid \<Rightarrow>
         if sid \<noteq> [] \<and> showGizmo st then
           (case map_of (meshes e) sid of
              Some selectedMesh \<Rightarrow> e\<lparr>attached := Some sid, gizmoMode := transformMode st\<rparr>
            | None \<Rightarrow> e\<lparr>attached := None\<rparr>)
         else e\<lparr>attached := None\<rparr>)"

text \<open>The effect returns at once while the scene is not initialised
  (\<open>sceneRef\<close> and \<open>texturesRef\<close> are set in the same effect that sets \<open>isInitialized\<close>).\<close>

definition updateObjectsEffect :: "AppState \<Rightarrow> Engine \<Rightarrow> Engine \<times> Event list" where
  "updateObjectsEffect st e =
    (if \<not> isInitialized st then (e, [])
     else
       let (e1, ev1) = removeStale (map obj_id (objects st)) (meshes e) e;
           (e2, ev2) = syncObjects (objects st) e1
       in (updateTransformControls st e2, ev1 @ ev2))"

text \<open>
  The gizmo's \<open>objectChange\<close> handler: \<open>transformControls.object\<close> is the attached mesh;
  its transform is copied into the selected object, and the home position with it.
\<close>

definition objectChange :: "Engine \<Rightarrow> AppState \<Rightarrow> AppState" where
  "objectChange e st =
    (case attached e of
       None \<Rightarrow> st
     | Some k \<Rightarrow>
         (case map_of (meshes e) k of
            None \<Rightarrow> st
          | Some obj \<Rightarrow>
              (case selectedId st of
                 None \<Rightarrow> st
               | Some sid \<Rightarrow>
                   if sid = [] then st
                   else st\<lparr>objects :=
                           map (\<lambda>ob. if obj_id ob = sid
                                      then ob\<lparr>position := mesh_position obj,
                                              rotation := mesh_rotation obj,
                                              scale := mesh_scale obj,
                                              originalPosition := mesh_position obj\<rparr>
                                      else ob)
                             (objects st)\<rparr>)))"

text \<open>Classification of events for counting allocations and disposals.\<close>

fun isAllocation :: "Event \<Rightarrow> bool" where
  "isAllocation (GeometryCreated _ _) = True"
| "isAllocation (MaterialCreated _) = True"
| "isAllocation _ = False"

fun isDisposal :: "Event \<Rightarrow> bool" where
  "isDisposal (GeometryDisposed _ _) = True"
| "isDisposal (MaterialDisposed _) = True"
| "isDisposal _ = False"

section \<open>The animation loop: per-object movement\<close>

text \<open>A callback queued with \<open>setTimeout(..., 0)\<close> by the \<open>returning\<close> branch: the id of
  the object and the home position it commits.\<close>

datatype Deferred = ReturnCommit string Vec3

text \<open>The distance \<open>dist\<close> computed inline by the \<open>returning\<close> branch, with
  \<open>Math.pow(d, 2)\<close> as a square.\<close>

definition distanceTo :: "Vec3 \<Rightarrow> Vec3 \<Rightarrow> real" where
  "distanceTo home p =
    (case (home, p) of
       ((ox, oy, oz), (x, y, z)) \<Rightarrow> sqrt ((ox - x)\<^sup>2 + (oy - y)\<^sup>2 + (oz - z)\<^sup>2))"

text \<open>The body of \<open>objectsRef.current.forEach\<close> for an object whose mesh exists;
  \<open>time\<close> is \<open>Date.now() * 0.001\<close>.\<close>

definition animateObject :: "real \<Rightarrow> ShapeObject \<Rightarrow> Mesh \<Rightarrow> Mesh \<times> Deferred list" where
  "animateObject time ob mesh0 =
    (let mesh =
           (if isAnimated ob then
              (case mesh_rotation mesh0 of
                 (rx, ry, rz) \<Rightarrow> mesh0\<lparr>mesh_rotation := (rx, ry + 0.01, rz)\<rparr>)
            else mesh0);
         speed = movementSpeed ob;
         range = movementRange ob
     in case (originalPosition ob, mesh_position mesh) of
          ((ox, oy, oz), (x, y, z)) \<Rightarrow>
            (case movementMode ob of
               none \<Rightarrow> (mesh, [])
             | straight \<Rightarrow>
                 (let z1 = z + 0.02 * speed
                  in (mesh\<lparr>mesh_position := (x, y, if \<bar>z1 - oz\<bar> > 50 then oz - 50 else z1)\<rparr>, []))
             | left_right \<Rightarrow>
                 (mesh\<lparr>mesh_position := (ox + sin (time * speed * 2) * range, y, z)\<rparr>, [])
             | up_down \<Rightarrow>
                 (mesh\<lparr>mesh_position := (x, oy + sin (time * speed * 2) * range, z)\<rparr>, [])
             | returning \<Rightarrow>
                 (let step = 0.05 * speed;
                      x1 = x + (ox - x) * step;
                      y1 = y + (oy - y) * step;
                      z1 = z + (oz - z) * step;
                      dist = distanceTo (ox, oy, oz) (x1, y1, z1)
                  in if dist < 0.01 then
                       (mesh\<lparr>mesh_position := (ox, oy, oz)\<rparr>,
                        [ReturnCommit (obj_id ob) (ox, oy, oz)])
                     else (mesh\<lparr>mesh_position := (x1, y1, z1)\<rparr>, []))
             | orbit \<Rightarrow>
                 (let orbitRadius = (if range = 0 then 5 else range);
                      orbitSpeed = speed * 0.5
                  in (mesh\<lparr>mesh_position :=
                             (ox + cos (time * orbitSpeed) * orbitRadius, y,
                              oz + sin (time * orbitSpeed) * orbitRadius)\<rparr>, []))))"

text \<open>One frame: every object of \<open>objectsRef.current\<close> whose mesh exists is advanced.
  The camera controls, the scene's auto-rotation and the render call of the same callback
  touch no mesh and are left out.\<close>

fun animate :: "real \<Rightarrow> ShapeObject list \<Rightarrow> Engine \<Rightarrow> Engine \<times> Deferred list" where
  "animate time [] e = (e, [])"
| "animate time (ob # obs) e =
    (case map_of (meshes e) (obj_id ob) of
       None \<Rightarrow> animate time obs e
     | Some mesh \<Rightarrow>
         (let (mesh1, d1) = animateObject time ob mesh;
              (e2, d2) = animate time obs (e\<lparr>meshes := AList.update (obj_id ob) mesh1 (meshes e)\<rparr>)
          in (e2, d1 @ d2)))"

text \<open>The queued callback: \<open>setObjects(prev => prev.map(...))\<close>.\<close>

fun runDeferred :: "Deferred \<Rightarrow> AppState \<Rightarrow> AppState" where
  "runDeferred (ReturnCommit i home) st =
    st\<lparr>objects :=
         map (\<lambda>ob. if obj_id ob = i then ob\<lparr>position := home, movementMode := none\<rparr> else ob)
           (objects st)\<rparr>"

text \<open>The mesh of one object over successive frames while the store does not change:
  \<open>clock k\<close> is the clock reading of frame \<open>k\<close>.  The second component is what frame
  \<open>n\<close> (the last one) queued.\<close>

fun frames :: "(nat \<Rightarrow> real) \<Rightarrow> ShapeObject \<Rightarrow> nat \<Rightarrow> Mesh \<Rightarrow> Mesh \<times> Deferred list" where
  "frames clock ob 0 mesh = (mesh, [])"
| "frames clock ob (Suc n) mesh = animateObject (clock n) ob (fst (frames clock ob n mesh))"

text \<open>A run of frames, each with its clock reading and the \<open>objectsRef.current\<close> it sees.\<close>

fun animateFrames :: "(real \<times> ShapeObject list) list \<Rightarrow> Engine \<Rightarrow> Engine" where
  "animateFrames [] e = e"
| "animateFrames ((t, obs) # fs) e = animateFrames fs (fst (animate t obs e))"

text \<open>Engine states that the effect and the animation loop can produce.\<close>

inductive reachable :: "Engine \<Rightarrow> bool" where
  reachable_init: "reachable initialEngine"
| reachable_effect: "reachable e \<Longrightarrow> reachable (fst (updateObjectsEffect st e))"
| reachable_frame: "reachable e \<Longrightarrow> reachable (fst (animate time obs e))"

text \<open>The invariant linking the two owners of a mesh: the keys of \<open>meshesRef\<close> are
  distinct, and the scene graph lists exactly those keys, each once.\<close>

definition sceneMatches :: "Engine \<Rightarrow> bool" where
  "sceneMatches e \<longleftrightarrow>
     distinct (map fst (meshes e)) \<and> distinct (scene e) \<and> set (scene e) = fst ` set (meshes e)"

section \<open>Concrete inputs\<close>

text \<open>A store of two objects with ids \<open>1\<close> and \<open>2\<close>, the first selected.\<close>

definition twoObjects :: AppState where
  "twoObjects = initialState\<lparr>objects := [primaryTorus, primaryTorus\<lparr>obj_id := ''2''\<rparr>]\<rparr>"

text \<open>A run of \<open>Math.random()\<close> returning 0, 0.1, 0.2, ...\<close>

definition tenths :: "nat \<Rightarrow> real" where
  "tenths k = real k / 10"

text \<open>A mesh at a given position, and the initial object in each movement mode.\<close>

definition meshAt :: "Vec3 \<Rightarrow> Mesh" where
  "meshAt p = (newMesh primaryTorus)\<lparr>mesh_position := p\<rparr>"

definition returningObject :: ShapeObject where
  "returningObject = primaryTorus\<lparr>position := (10, 0, 0), movementMode := returning\<rparr>"


definition orbitObject :: ShapeObject where
  "orbitObject = primaryTorus\<lparr>movementMode := orbit\<rparr>"

text \<open>The stores above once the scene is initialised, and the engine after reconciling
  the two-object store from the empty scene.\<close>

definition readyOne :: AppState where
  "readyOne = initialState\<lparr>isInitialized := True\<rparr>"

definition readyTwo :: AppState where
  "readyTwo = twoObjects\<lparr>isInitialized := True\<rparr>"

definition engineTwo :: Engine where
  "engineTwo = fst (updateObjectsEffect readyTwo initialEngine)"

section \<open>GeometryFactory: \<open>createGeometry\<close>\<close>

text \<open>
  Claim C7.  \<open>createGeometry\<close> is a total function of the shape kind, the radius and the
  height: for each of the thirteen shape kinds it returns the primitive of the mapping
  table (sphere with 64 by 64 segments; cylinder with equal top and bottom radius, the
  height and 64 sides; box of side twice the radius on all three axes; cone with 64 sides;
  torus of tube radius one third of the radius with 64 by 64 segments; pyramid as a
  four-sided cone; prisms as cylinders of 3, 5, 6 and 8 sides; the three platonic solids
  from the radius alone), and every other shape kind yields the sphere.  It holds for all
  radii and heights, the positive ones included.
\<close>

theorem createGeometry_table:
  "createGeometry ''sphere'' r h = SphereGeometry r 64 64
   \<and> createGeometry ''cylinder'' r h = CylinderGeometry r r h 64
   \<and> createGeometry ''cube'' r h = BoxGeometry (2 * r) (2 * r) (2 * r)
   \<and> createGeometry ''cone'' r h = ConeGeometry r h 64
   \<and> createGeometry ''torus'' r h = TorusGeometry r (r / 3) 64 64
   \<and> createGeometry ''pyramid'' r h = ConeGeometry r h 4
   \<and> createGeometry ''prism'' r h = CylinderGeometry r r h 3
   \<and> createGeometry ''pentagonalPrism'' r h = CylinderGeometry r r h 5
   \<and> createGeometry ''hexagonalPrism'' r h = CylinderGeometry r r h 6
   \<and> createGeometry ''octagonalPrism'' r h = CylinderGeometry r r h 8
   \<and> createGeometry ''tetrahedron'' r h = TetrahedronGeometry r
   \<and> createGeometry ''dodecahedron'' r h = DodecahedronGeometry r
   \<and> createGeometry ''icosahedron'' r h = IcosahedronGeometry r
   \<and> (ty \<notin> set shapeTypes \<longrightarrow> createGeometry ty r h = SphereGeometry r 64 64)"
  by (simp add: createGeometry_def shapeTypes_def mult.commute)

theorem createGeometry_table_witness:
  "''blob'' \<notin> set shapeTypes \<and> createGeometry ''blob'' 2 3 = SphereGeometry 2 64 64
   \<and> createGeometry ''cube'' 2 3 = BoxGeometry 4 4 4
   \<and> createGeometry ''torus'' 3 3 = TorusGeometry 3 1 64 64"
  using createGeometry_table [of 2 3 "''blob''"] createGeometry_table [of 3 3 "''blob''"]
  by (simp add: shapeTypes_def)

section \<open>ObjectStore: delete, selection and add\<close>

lemma filter_neq_length:
  "distinct (map f xs) \<Longrightarrow> length xs \<le> Suc (length (filter (\<lambda>x. f x \<noteq> i) xs))"
proof (induction xs)
  case Nil
  then show ?case by simp
next
  case (Cons x xs)
  show ?case
  proof (cases "f x = i")
    case True
    with Cons.prems have "i \<notin> f ` set xs" by auto
    then have "filter (\<lambda>x. f x \<noteq> i) xs = xs" by (auto simp: filter_id_conv)
    with True show ?thesis by simp
  next
    case False
    with Cons show ?thesis by simp
  qed
qed

lemma deleteObject_objects:
  "objects (fst (deleteObject i st)) =
     (if length (objects st) \<le> 1 then objects st else filter (\<lambda>ob. obj_id ob \<noteq> i) (objects st))"
  by (simp add: deleteObject_def Let_def split: list.splits)

lemma deleteObject_distinct:
  "distinct (map obj_id (objects st)) \<Longrightarrow> distinct (map obj_id (objects (fst (deleteObject i st))))"
  by (simp add: deleteObject_objects distinct_map_filter)

lemma deleteObject_nonempty:
  assumes "distinct (map obj_id (objects st))" and "objects st \<noteq> []"
  shows "objects (fst (deleteObject i st)) \<noteq> []"
proof (cases "length (objects st) \<le> 1")
  case True
  with assms show ?thesis by (simp add: deleteObject_objects)
next
  case False
  from filter_neq_length [OF assms(1), of i] False
  have "0 < length (filter (\<lambda>ob. obj_id ob \<noteq> i) (objects st))" by linarith
  with False show ?thesis by (simp add: deleteObject_objects)
qed

lemma deleteObjects_nonempty:
  "distinct (map obj_id (objects st)) \<Longrightarrow> objects st \<noteq> [] \<Longrightarrow> objects (deleteObjects is st) \<noteq> []"
proof (induction "is" arbitrary: st)
  case Nil
  then show ?case by simp
next
  case (Cons i "is")
  then show ?case
    using deleteObject_distinct deleteObject_nonempty by simp
qed

text \<open>
  Claim C8.  \<open>deleteObject\<close> on a store of at most one object returns without changing
  anything; and for a store that is not empty and whose ids are unique (the invariant of
  the object store), no sequence of \<open>deleteObject\<close> calls, whatever ids it names, leads to
  a store with zero objects.
\<close>

theorem deleteObject_keeps_one:
  "(length (objects st) \<le> 1 \<longrightarrow> deleteObject i st = (st, None))
   \<and> (distinct (map obj_id (objects st)) \<and> objects st \<noteq> []
        \<longrightarrow> objects (deleteObjects is st) \<noteq> [])"
  using deleteObjects_nonempty by (simp add: deleteObject_def)

theorem deleteObject_keeps_one_witness:
  "length (objects initialState) \<le> 1
   \<and> deleteObject ''1'' initialState = (initialState, None)
   \<and> distinct (map obj_id (objects twoObjects)) \<and> objects twoObjects \<noteq> []
   \<and> objects (deleteObjects [''1'', ''2'', ''1''] twoObjects) \<noteq> []"
  using deleteObject_keeps_one [of initialState "''1''" "[]"]
    deleteObject_keeps_one [of twoObjects "''1''" "[''1'', ''2'', ''1'']"]
  by (simp add: initialState_def twoObjects_def primaryTorus_def)

text \<open>The guard counts objects, not ids: on a list that breaks the store invariant of
  unique ids, one delete can empty the store, and the selection update then throws.\<close>

lemma deleteObject_duplicate_ids:
  "deleteObject ''1'' (initialState\<lparr>objects := [primaryTorus, primaryTorus]\<rparr>)
   = (initialState\<lparr>objects := []\<rparr>, Some TypeError)"
  by (simp add: initialState_def primaryTorus_def deleteObject_def)

text \<open>
  Claim C10.  When \<open>deleteObject\<close> is called on a store of more than one object with
  unique ids, in which the selection, if there is one, names a stored object, then it
  succeeds; the remaining list is not empty; if the deleted id was the selected id the
  selection becomes the id of the first remaining object, otherwise the selection is
  unchanged; and in either case the selection, if there is one, names an object of the
  remaining list.
\<close>

theorem deleteObject_selection:
  assumes "1 < length (objects st)"
    and "distinct (map obj_id (objects st))"
    and "\<forall>s. selectedId st = Some s \<longrightarrow> s \<in> obj_id ` set (objects st)"
  shows "\<exists>st'. deleteObject i st = (st', None)
      \<and> objects st' = filter (\<lambda>ob. obj_id ob \<noteq> i) (objects st)
      \<and> objects st' \<noteq> []
      \<and> (selectedId st = Some i \<longrightarrow> selectedId st' = Some (obj_id (hd (objects st'))))
      \<and> (selectedId st \<noteq> Some i \<longrightarrow> selectedId st' = selectedId st)
      \<and> (\<forall>s. selectedId st' = Some s \<longrightarrow> s \<in> obj_id ` set (objects st'))"
proof -
  let ?new = "filter (\<lambda>ob. obj_id ob \<noteq> i) (objects st)"
  from filter_neq_length [OF assms(2), of i] assms(1)
  have ne: "?new \<noteq> []" by (metis One_nat_def Suc_le_eq length_0_conv less_irrefl_nat not_less_eq_eq less_le_trans)
  then obtain ob rest where new: "?new = ob # rest" by (cases ?new) auto
  have hd_in: "obj_id ob \<in> obj_id ` set ?new" using new by simp
  show ?thesis
  proof (cases "selectedId st = Some i")
    case True
    with assms(1) new hd_in show ?thesis
      by (simp add: deleteObject_def Let_def)
  next
    case False
    have keep: "\<forall>s. selectedId st = Some s \<longrightarrow> s \<in> obj_id ` set ?new"
    proof (intro allI impI)
      fix s assume s: "selectedId st = Some s"
      with assms(3) obtain x where x: "x \<in> set (objects st)" "obj_id x = s" by auto
      from s False have "s \<noteq> i" by auto
      with x have "x \<in> set ?new" by simp
      with x show "s \<in> obj_id ` set ?new" by blast
    qed
    have "deleteObject i st = (st\<lparr>objects := ?new\<rparr>, None)"
      using False assms(1) by (simp add: deleteObject_def Let_def)
    with keep ne False show ?thesis by simp
  qed
qed

theorem deleteObject_selection_witness:
  "1 < length (objects twoObjects) \<and> distinct (map obj_id (objects twoObjects))
   \<and> selectedId twoObjects = Some ''1'' \<and> ''1'' \<in> obj_id ` set (objects twoObjects)
   \<and> (\<exists>st'. deleteObject ''1'' twoObjects = (st', None) \<and> selectedId st' = Some ''2''
          \<and> map obj_id (objects st') = [''2''])"
proof -
  have h1: "1 < length (objects twoObjects)"
    by (simp add: twoObjects_def)
  have h2: "distinct (map obj_id (objects twoObjects))"
    by (simp add: twoObjects_def primaryTorus_def)
  have h3: "\<forall>s. selectedId twoObjects = Some s \<longrightarrow> s \<in> obj_id ` set (objects twoObjects)"
    by (simp add: twoObjects_def initialState_def primaryTorus_def)
  have sel: "selectedId twoObjects = Some ''1''"
    by (simp add: twoObjects_def initialState_def)
  have flt: "filter (\<lambda>ob. obj_id ob \<noteq> ''1'') (objects twoObjects) = [primaryTorus\<lparr>obj_id := ''2''\<rparr>]"
    by (simp add: twoObjects_def primaryTorus_def)
  from deleteObject_selection [OF h1 h2 h3, of "''1''"] sel flt
  have "\<exists>st'. deleteObject ''1'' twoObjects = (st', None) \<and> selectedId st' = Some ''2''
          \<and> map obj_id (objects st') = [''2'']"
    by auto
  moreover have "''1'' \<in> obj_id ` set (objects twoObjects)"
    by (simp add: twoObjects_def primaryTorus_def)
  ultimately show ?thesis using h1 h2 sel by blast
qed

text \<open>
  Claim C9.  An object created by \<open>addObject\<close> should have \<open>originalPosition\<close> equal to
  its \<open>position\<close>.  The object literal evaluates \<open>(Math.random() - 0.5) * 10\<close> again for
  \<open>originalPosition\<close>, so the two differ as soon as the draws differ: with the draws
  0, 0.1, 0.2, 0.3, 0.4, 0.5 the new object is at \<open>(-4, 2, -3)\<close> and its home is
  \<open>(-1, 2, 0)\<close>.
\<close>

theorem addObject_home_differs:
  "(let ob = last (objects (addObject (\<lambda>x. ''k3x9q0zt1'') tenths initialState))
    in position ob = (-4, 2, -3) \<and> originalPosition ob = (-1, 2, 0)
       \<and> originalPosition ob \<noteq> position ob)"
  by (simp add: addObject_def tenths_def Let_def)

text \<open>Home and position agree exactly when the later draws repeat the earlier ones.\<close>

lemma addObject_home_iff:
  "(let ob = last (objects (addObject idString rnd st))
    in originalPosition ob = position ob \<longleftrightarrow> rnd 4 = rnd 1 \<and> rnd 5 = rnd 2)"
  by (simp add: addObject_def Let_def)

section \<open>KineticSimulator: the movement modes\<close>

lemma animateObject_orbit:
  assumes "movementMode ob = orbit" and "originalPosition ob = (hx, hy, hz)"
    and "mesh_position mesh = (x, y, z)"
  shows "mesh_position (fst (animateObject t ob mesh)) =
           (hx + cos (t * movementSpeed ob * 0.5) * (if movementRange ob = 0 then 5 else movementRange ob),
            y,
            hz + sin (t * movementSpeed ob * 0.5) * (if movementRange ob = 0 then 5 else movementRange ob))"
    and "snd (animateObject t ob mesh) = []"
  using assms by (simp_all add: animateObject_def Let_def split: prod.splits)


lemma animateObject_returning_position:
  assumes "movementMode ob = returning" and "originalPosition ob = (hx, hy, hz)"
    and "mesh_position mesh = (x, y, z)"
  shows "(let s = 0.05 * movementSpeed ob;
              p1 = (x + (hx - x) * s, y + (hy - y) * s, z + (hz - z) * s)
          in if distanceTo (hx, hy, hz) p1 < 0.01
             then mesh_position (fst (animateObject t ob mesh)) = (hx, hy, hz)
                  \<and> snd (animateObject t ob mesh) = [ReturnCommit (obj_id ob) (hx, hy, hz)]
             else mesh_position (fst (animateObject t ob mesh)) = p1
                  \<and> snd (animateObject t ob mesh) = [])"
  using assms by (simp add: animateObject_def Let_def split: prod.splits)

lemma distanceTo_x_axis: "distanceTo (0, 0, 0) (x, 0, 0) = \<bar>x\<bar>"
  by (simp add: distanceTo_def)

lemma pow_134: "(1::real) / 1000 \<le> (19 / 20) ^ 134"
  by (simp add: power_divide)

lemma pow_135: "(19 / 20 :: real) ^ 135 < 1 / 1000"
  by (simp add: power_divide)

lemma pow_le_134: "n \<le> 134 \<Longrightarrow> (1::real) / 1000 \<le> (19 / 20) ^ n"
proof -
  assume "n \<le> 134"
  then have "(19 / 20 :: real) ^ 134 \<le> (19 / 20) ^ n"
    by (intro power_decreasing) simp_all
  with pow_134 show ?thesis by linarith
qed


lemma returning_scenario_step:
  assumes "movementMode ob = returning" and "movementSpeed ob = 1"
    and "originalPosition ob = (0, 0, 0)" and "mesh_position m = (10 * (19 / 20) ^ n, 0, 0)"
  shows "if 10 * (19 / 20 :: real) ^ Suc n < 0.01
         then mesh_position (fst (animateObject t ob m)) = (0, 0, 0)
              \<and> snd (animateObject t ob m) = [ReturnCommit (obj_id ob) (0, 0, 0)]
         else mesh_position (fst (animateObject t ob m)) = (10 * (19 / 20) ^ Suc n, 0, 0)
              \<and> snd (animateObject t ob m) = []"
proof -
  let ?x1 = "10 * (19 / 20) ^ n + (0 - 10 * (19 / 20) ^ n) * (0.05 * movementSpeed ob)"
  have x1: "?x1 = 10 * (19 / 20 :: real) ^ Suc n"
    by (simp add: assms(2))
  have zero: "(0::real) + (0 - 0) * (0.05 * movementSpeed ob) = 0"
    by simp
  have nonneg: "\<bar>10 * (19 / 20 :: real) ^ Suc n\<bar> = 10 * (19 / 20) ^ Suc n"
    by simp
  note step = animateObject_returning_position [OF assms(1) assms(3) assms(4), of t]
  show ?thesis
    using step unfolding Let_def x1 zero distanceTo_x_axis nonneg
    by (simp only:)
qed

lemma hundredth: "(0.01::real) = 1 / 100"
  by simp

lemma returning_frames_before:
  assumes "movementMode ob = returning" and "movementSpeed ob = 1"
    and "originalPosition ob = (0, 0, 0)" and "mesh_position mesh = (10, 0, 0)"
  shows "n \<le> 134 \<Longrightarrow>
     mesh_position (fst (frames clock ob n mesh)) = (10 * (19 / 20) ^ n, 0, 0)
     \<and> snd (frames clock ob n mesh) = []"
proof (induction n)
  case 0
  with assms show ?case by simp
next
  case (Suc n)
  then have pos: "mesh_position (fst (frames clock ob n mesh)) = (10 * (19 / 20) ^ n, 0, 0)"
    by simp
  have "(1::real) / 1000 \<le> (19 / 20) ^ Suc n"
    using Suc.prems by (rule pow_le_134)
  then have far: "\<not> 10 * (19 / 20 :: real) ^ Suc n < 0.01"
    unfolding hundredth by linarith
  from returning_scenario_step [OF assms(1-3) pos, of "clock n"] far
  show ?case unfolding frames.simps by (simp only: if_False)
qed

lemma returning_frames_snap:
  assumes "movementMode ob = returning" and "movementSpeed ob = 1"
    and "originalPosition ob = (0, 0, 0)" and "mesh_position mesh = (10, 0, 0)"
  shows "mesh_position (fst (frames clock ob (Suc 134) mesh)) = (0, 0, 0)
     \<and> snd (frames clock ob (Suc 134) mesh) = [ReturnCommit (obj_id ob) (0, 0, 0)]"
proof -
  have pos: "mesh_position (fst (frames clock ob 134 mesh)) = (10 * (19 / 20) ^ 134, 0, 0)"
    by (rule returning_frames_before [OF assms, THEN conjunct1]) simp
  have "(19 / 20 :: real) ^ Suc 134 < 1 / 1000"
    using pow_135 by simp
  then have near: "10 * (19 / 20 :: real) ^ Suc 134 < 0.01"
    unfolding hundredth by linarith
  from returning_scenario_step [OF assms(1-3) pos, of "clock 134"] near
  show ?thesis unfolding frames.simps by (simp only: if_True)
qed


lemma returning_distance_decreases:
  assumes "movementMode ob = returning" and "movementSpeed ob = 1"
    and "originalPosition ob = (0, 0, 0)" and "mesh_position mesh = (10, 0, 0)"
    and "n \<le> 134"
  shows "distanceTo (0, 0, 0) (mesh_position (fst (frames clock ob (Suc n) mesh)))
       < distanceTo (0, 0, 0) (mesh_position (fst (frames clock ob n mesh)))"
proof -
  have pos: "mesh_position (fst (frames clock ob n mesh)) = (10 * (19 / 20) ^ n, 0, 0)"
    by (rule returning_frames_before [OF assms(1-4) assms(5), THEN conjunct1])
  have positive: "(0::real) < 10 * (19 / 20) ^ n" by simp
  have d: "distanceTo (0, 0, 0) (mesh_position (fst (frames clock ob n mesh))) = 10 * (19 / 20) ^ n"
    unfolding pos distanceTo_x_axis using positive by linarith
  show ?thesis
  proof (cases "n = 134")
    case True
    have "mesh_position (fst (frames clock ob (Suc n) mesh)) = (0, 0, 0)"
      unfolding True by (rule returning_frames_snap [OF assms(1-4), THEN conjunct1])
    then have "distanceTo (0, 0, 0) (mesh_position (fst (frames clock ob (Suc n) mesh))) = 0"
      by (simp only: distanceTo_x_axis abs_zero)
    then show ?thesis unfolding d using positive by linarith
  next
    case False
    with assms(5) have "Suc n \<le> 134" by simp
    have pos1: "mesh_position (fst (frames clock ob (Suc n) mesh)) = (10 * (19 / 20) ^ Suc n, 0, 0)"
      by (rule returning_frames_before [OF assms(1-4) \<open>Suc n \<le> 134\<close>, THEN conjunct1])
    have "(10::real) * (19 / 20) ^ Suc n = 10 * (19 / 20) ^ n * (19 / 20)"
      by simp
    then have "distanceTo (0, 0, 0) (mesh_position (fst (frames clock ob (Suc n) mesh)))
        = 10 * (19 / 20) ^ n * (19 / 20)"
      unfolding pos1 distanceTo_x_axis using positive by linarith
    then show ?thesis unfolding d using positive by linarith
  qed
qed

lemma returning_not_arrived:
  assumes "movementMode ob = returning" and "movementSpeed ob = 1"
    and "originalPosition ob = (0, 0, 0)" and "mesh_position mesh = (10, 0, 0)"
    and "n \<le> 134"
  shows "\<not> distanceTo (0, 0, 0) (mesh_position (fst (frames clock ob n mesh))) < 0.01"
proof -
  have pos: "mesh_position (fst (frames clock ob n mesh)) = (10 * (19 / 20) ^ n, 0, 0)"
    by (rule returning_frames_before [OF assms(1-4) assms(5), THEN conjunct1])
  have positive: "(0::real) < 10 * (19 / 20) ^ n" by simp
  have "(1::real) / 1000 \<le> (19 / 20) ^ n"
    using assms(5) by (rule pow_le_134)
  then show ?thesis
    unfolding pos distanceTo_x_axis hundredth using positive by linarith
qed

lemma runDeferred_commit:
  assumes "ob \<in> set (objects (runDeferred (ReturnCommit i home) st))" and "obj_id ob = i"
  shows "position ob = home \<and> movementMode ob = none"
proof -
  from assms(1)
  have "ob \<in> (\<lambda>ob. if obj_id ob = i then ob\<lparr>position := home, movementMode := none\<rparr> else ob)
           ` set (objects st)"
    by simp
  then obtain ob0 where
    ob: "ob = (if obj_id ob0 = i then ob0\<lparr>position := home, movementMode := none\<rparr> else ob0)"
    by (rule imageE)
  show ?thesis
  proof (cases "obj_id ob0 = i")
    case True
    with ob show ?thesis by simp
  next
    case False
    with ob assms(2) show ?thesis by simp
  qed
qed

lemma runDeferred_ids:
  "map obj_id (objects (runDeferred (ReturnCommit i home) st)) = map obj_id (objects st)"
  by simp





text \<open>
  Claim C4.  In \<open>returning\<close> mode a frame adds \<open>(home - node) * (0.05 * speed)\<close> to each
  axis of the node position, and if the distance from the result to home is below 0.01 it
  sets the node to home exactly and queues a commit.  For a node at \<open>(10, 0, 0)\<close> with home
  \<open>(0, 0, 0)\<close> and speed 1: through frame 134 the node is at \<open>10 * 0.95 ^ n\<close> on the x axis,
  still at least 0.01 from home, with nothing queued; every frame up to and including the
  135th strictly decreases the distance to home; frame 135 puts the node exactly at home
  and queues the commit; and running the commit sets \<open>position\<close> to \<open>(0, 0, 0)\<close> and
  \<open>movementMode\<close> to \<open>none\<close> in every stored object of that id, leaving the ids of the
  store as they were.
\<close>

theorem returning_converges:
  assumes "movementMode ob = returning"
  shows
    "(originalPosition ob = (hx, hy, hz) \<and> mesh_position m = (x, y, z) \<longrightarrow>
        (let s = 0.05 * movementSpeed ob;
             p1 = (x + (hx - x) * s, y + (hy - y) * s, z + (hz - z) * s)
         in if distanceTo (hx, hy, hz) p1 < 0.01
            then mesh_position (fst (animateObject t ob m)) = (hx, hy, hz)
                 \<and> snd (animateObject t ob m) = [ReturnCommit (obj_id ob) (hx, hy, hz)]
            else mesh_position (fst (animateObject t ob m)) = p1
                 \<and> snd (animateObject t ob m) = []))
     \<and> (movementSpeed ob = 1 \<and> originalPosition ob = (0, 0, 0) \<and> mesh_position mesh = (10, 0, 0) \<longrightarrow>
        (\<forall>n\<le>134.
            mesh_position (fst (frames clock ob n mesh)) = (10 * (19 / 20) ^ n, 0, 0)
            \<and> snd (frames clock ob n mesh) = []
            \<and> \<not> distanceTo (0, 0, 0) (mesh_position (fst (frames clock ob n mesh))) < 0.01
            \<and> distanceTo (0, 0, 0) (mesh_position (fst (frames clock ob (Suc n) mesh)))
                < distanceTo (0, 0, 0) (mesh_position (fst (frames clock ob n mesh))))
        \<and> mesh_position (fst (frames clock ob 135 mesh)) = (0, 0, 0)
        \<and> snd (frames clock ob 135 mesh) = [ReturnCommit (obj_id ob) (0, 0, 0)]
        \<and> (\<forall>ob' \<in> set (objects (runDeferred (ReturnCommit (obj_id ob) (0, 0, 0)) st)).
              obj_id ob' = obj_id ob \<longrightarrow> position ob' = (0, 0, 0) \<and> movementMode ob' = none)
        \<and> map obj_id (objects (runDeferred (ReturnCommit (obj_id ob) (0, 0, 0)) st))
            = map obj_id (objects st))"
proof (intro conjI impI)
  assume "originalPosition ob = (hx, hy, hz) \<and> mesh_position m = (x, y, z)"
  then show "let s = 0.05 * movementSpeed ob;
             p1 = (x + (hx - x) * s, y + (hy - y) * s, z + (hz - z) * s)
         in if distanceTo (hx, hy, hz) p1 < 0.01
            then mesh_position (fst (animateObject t ob m)) = (hx, hy, hz)
                 \<and> snd (animateObject t ob m) = [ReturnCommit (obj_id ob) (hx, hy, hz)]
            else mesh_position (fst (animateObject t ob m)) = p1
                 \<and> snd (animateObject t ob m) = []"
    using animateObject_returning_position [OF assms, of hx hy hz m x y z t] by blast
next
  assume sc: "movementSpeed ob = 1 \<and> originalPosition ob = (0, 0, 0) \<and> mesh_position mesh = (10, 0, 0)"
  then have a: "movementSpeed ob = 1" "originalPosition ob = (0, 0, 0)"
    "mesh_position mesh = (10, 0, 0)"
    by blast+
  show "\<forall>n\<le>134.
            mesh_position (fst (frames clock ob n mesh)) = (10 * (19 / 20) ^ n, 0, 0)
            \<and> snd (frames clock ob n mesh) = []
            \<and> \<not> distanceTo (0, 0, 0) (mesh_position (fst (frames clock ob n mesh))) < 0.01
            \<and> distanceTo (0, 0, 0) (mesh_position (fst (frames clock ob (Suc n) mesh)))
                < distanceTo (0, 0, 0) (mesh_position (fst (frames clock ob n mesh)))"
  proof (intro allI impI conjI)
    fix n :: nat assume n: "n \<le> 134"
    show "mesh_position (fst (frames clock ob n mesh)) = (10 * (19 / 20) ^ n, 0, 0)"
      by (rule returning_frames_before [OF assms a n, THEN conjunct1])
    show "snd (frames clock ob n mesh) = []"
      by (rule returning_frames_before [OF assms a n, THEN conjunct2])
    show "\<not> distanceTo (0, 0, 0) (mesh_position (fst (frames clock ob n mesh))) < 0.01"
      by (rule returning_not_arrived [OF assms a n])
    show "distanceTo (0, 0, 0) (mesh_position (fst (frames clock ob (Suc n) mesh)))
                < distanceTo (0, 0, 0) (mesh_position (fst (frames clock ob n mesh)))"
      by (rule returning_distance_decreases [OF assms a n])
  qed
  have suc: "135 = Suc 134" by simp
  show "mesh_position (fst (frames clock ob 135 mesh)) = (0, 0, 0)"
    unfolding suc by (rule returning_frames_snap [OF assms a, THEN conjunct1])
  show "snd (frames clock ob 135 mesh) = [ReturnCommit (obj_id ob) (0, 0, 0)]"
    unfolding suc by (rule returning_frames_snap [OF assms a, THEN conjunct2])
  show "\<forall>ob' \<in> set (objects (runDeferred (ReturnCommit (obj_id ob) (0, 0, 0)) st)).
              obj_id ob' = obj_id ob \<longrightarrow> position ob' = (0, 0, 0) \<and> movementMode ob' = none"
    using runDeferred_commit by blast
  show "map obj_id (objects (runDeferred (ReturnCommit (obj_id ob) (0, 0, 0)) st))
            = map obj_id (objects st)"
    by (rule runDeferred_ids)
qed


theorem returning_converges_witness:
  "movementMode returningObject = returning
   \<and> movementSpeed returningObject = 1 \<and> originalPosition returningObject = (0, 0, 0)
   \<and> mesh_position (meshAt (10, 0, 0)) = (10, 0, 0)
   \<and> mesh_position (fst (animateObject 0 returningObject (meshAt (10, 0, 0)))) = (19 / 2, 0, 0)
   \<and> mesh_position (fst (frames (\<lambda>k. real k / 60) returningObject 2 (meshAt (10, 0, 0))))
       = (361 / 40, 0, 0)
   \<and> mesh_position (fst (frames (\<lambda>k. real k / 60) returningObject 135 (meshAt (10, 0, 0))))
       = (0, 0, 0)
   \<and> snd (frames (\<lambda>k. real k / 60) returningObject 135 (meshAt (10, 0, 0)))
       = [ReturnCommit ''1'' (0, 0, 0)]
   \<and> returningObject \<in> set (objects (initialState\<lparr>objects := [returningObject]\<rparr>))
   \<and> map position
         (objects (runDeferred (ReturnCommit ''1'' (0, 0, 0))
            (initialState\<lparr>objects := [returningObject]\<rparr>))) = [(0, 0, 0)]
   \<and> map movementMode
         (objects (runDeferred (ReturnCommit ''1'' (0, 0, 0))
            (initialState\<lparr>objects := [returningObject]\<rparr>))) = [none]"
proof -
  have h1: "movementMode returningObject = returning"
    by (simp add: returningObject_def)
  have h2: "movementSpeed returningObject = 1 \<and> originalPosition returningObject = (0, 0, 0)
      \<and> mesh_position (meshAt (10, 0, 0)) = (10, 0, 0)"
    by (simp add: returningObject_def primaryTorus_def meshAt_def)
  have h3: "originalPosition returningObject = (0, 0, 0) \<and> mesh_position (meshAt (10, 0, 0)) = (10, 0, 0)"
    using h2 by simp
  have i: "obj_id returningObject = ''1''"
    by (simp add: returningObject_def primaryTorus_def)
  note w = returning_converges [OF h1, of 0 0 0 "meshAt (10, 0, 0)" 10 0 0 0 "meshAt (10, 0, 0)"
      "\<lambda>k. real k / 60" "initialState\<lparr>objects := [returningObject]\<rparr>"]
  have far: "\<not> distanceTo (0, 0, 0) (19 / 2, 0, 0) < 0.01"
    by (simp add: distanceTo_x_axis)
  from w h3 far
  have step: "mesh_position (fst (animateObject 0 returningObject (meshAt (10, 0, 0)))) = (19 / 2, 0, 0)"
    by (simp add: Let_def returningObject_def primaryTorus_def)
  from w h2
  have two: "mesh_position (fst (frames (\<lambda>k. real k / 60) returningObject 2 (meshAt (10, 0, 0))))
       = (10 * (19 / 20) ^ 2, 0, 0)"
    by (simp del: frames.simps)
  then have two': "mesh_position (fst (frames (\<lambda>k. real k / 60) returningObject 2 (meshAt (10, 0, 0))))
       = (361 / 40, 0, 0)"
    by (simp add: power2_eq_square)
  from w h2
  have snap: "mesh_position (fst (frames (\<lambda>k. real k / 60) returningObject 135 (meshAt (10, 0, 0)))) = (0, 0, 0)
      \<and> snd (frames (\<lambda>k. real k / 60) returningObject 135 (meshAt (10, 0, 0)))
          = [ReturnCommit ''1'' (0, 0, 0)]"
    by (simp add: i del: frames.simps)
  have mem: "returningObject \<in> set (objects (initialState\<lparr>objects := [returningObject]\<rparr>))"
    by simp
  have run: "objects (runDeferred (ReturnCommit ''1'' (0, 0, 0))
            (initialState\<lparr>objects := [returningObject]\<rparr>))
      = [returningObject\<lparr>position := (0, 0, 0), movementMode := none\<rparr>]"
    by (simp add: i)
  from w h2
  have commit: "\<forall>ob' \<in> set (objects (runDeferred (ReturnCommit ''1'' (0, 0, 0))
            (initialState\<lparr>objects := [returningObject]\<rparr>))).
      obj_id ob' = ''1'' \<longrightarrow> position ob' = (0, 0, 0) \<and> movementMode ob' = none"
    unfolding i by blast
  have committed: "map position (objects (runDeferred (ReturnCommit ''1'' (0, 0, 0))
            (initialState\<lparr>objects := [returningObject]\<rparr>))) = [(0, 0, 0)]
     \<and> map movementMode (objects (runDeferred (ReturnCommit ''1'' (0, 0, 0))
            (initialState\<lparr>objects := [returningObject]\<rparr>))) = [none]"
    using commit unfolding run by (simp add: i)
  from h1 h2 step two' snap mem committed show ?thesis by blast
qed




text \<open>
  Claim C6.  In \<open>orbit\<close> mode, at clock reading \<open>t\<close> the node is at
  \<open>x = hx + cos (t * speed * 0.5) * r\<close>, \<open>z = hz + sin (t * speed * 0.5) * r\<close>, its y unchanged,
  where \<open>r\<close> is \<open>movementRange\<close>, or 5 when the range is zero.  For home \<open>(0, 0, 0)\<close>,
  speed 1 and range 5 the node is at \<open>(5, y, 0)\<close> at \<open>t = 0\<close> and again at \<open>t = 2 * pi / 0.5\<close>
  (exactly so over the reals).
\<close>

theorem orbit_position:
  assumes "movementMode ob = orbit" and "originalPosition ob = (hx, hy, hz)"
    and "mesh_position mesh = (x, y, z)"
  shows
    "mesh_position (fst (animateObject t ob mesh)) =
        (hx + cos (t * movementSpeed ob * 0.5) * (if movementRange ob = 0 then 5 else movementRange ob),
         y,
         hz + sin (t * movementSpeed ob * 0.5) * (if movementRange ob = 0 then 5 else movementRange ob))
     \<and> snd (animateObject t ob mesh) = []
     \<and> ((hx, hy, hz) = (0, 0, 0) \<and> movementSpeed ob = 1 \<and> movementRange ob = 5 \<longrightarrow>
          mesh_position (fst (animateObject 0 ob mesh)) = (5, y, 0)
          \<and> mesh_position (fst (animateObject (2 * pi / 0.5) ob mesh)) = (5, y, 0))"
proof (intro conjI impI)
  show "mesh_position (fst (animateObject t ob mesh)) =
        (hx + cos (t * movementSpeed ob * 0.5) * (if movementRange ob = 0 then 5 else movementRange ob),
         y,
         hz + sin (t * movementSpeed ob * 0.5) * (if movementRange ob = 0 then 5 else movementRange ob))"
    by (rule animateObject_orbit(1) [OF assms])
  show "snd (animateObject t ob mesh) = []"
    by (rule animateObject_orbit(2) [OF assms])
next
  assume a: "(hx, hy, hz) = (0, 0, 0) \<and> movementSpeed ob = 1 \<and> movementRange ob = 5"
  have full: "2 * pi / 0.5 * 1 * 0.5 = 2 * pi" by simp
  show "mesh_position (fst (animateObject 0 ob mesh)) = (5, y, 0)"
    unfolding animateObject_orbit(1) [OF assms] using a by simp
  show "mesh_position (fst (animateObject (2 * pi / 0.5) ob mesh)) = (5, y, 0)"
    unfolding animateObject_orbit(1) [OF assms] using a by (simp add: full)
qed

theorem orbit_position_witness:
  "movementMode orbitObject = orbit \<and> originalPosition orbitObject = (0, 0, 0)
   \<and> movementSpeed orbitObject = 1 \<and> movementRange orbitObject = 5
   \<and> mesh_position (meshAt (1, 2, 3)) = (1, 2, 3)
   \<and> mesh_position (fst (animateObject 0 orbitObject (meshAt (1, 2, 3)))) = (5, 2, 0)
   \<and> mesh_position (fst (animateObject (2 * pi / 0.5) orbitObject (meshAt (1, 2, 3)))) = (5, 2, 0)
   \<and> mesh_position (fst (animateObject pi orbitObject (meshAt (1, 2, 3)))) = (0, 2, 5)"
proof -
  have h1: "movementMode orbitObject = orbit"
    by (simp add: orbitObject_def)
  have h2: "originalPosition orbitObject = (0, 0, 0)"
    by (simp add: orbitObject_def primaryTorus_def)
  have h3: "mesh_position (meshAt (1, 2, 3)) = (1, 2, 3)"
    by (simp add: meshAt_def)
  have h4: "movementSpeed orbitObject = 1 \<and> movementRange orbitObject = 5"
    by (simp add: orbitObject_def primaryTorus_def)
  note w = orbit_position [OF h1 h2 h3]
  from w [of pi] h4
  have quarter: "mesh_position (fst (animateObject pi orbitObject (meshAt (1, 2, 3)))) = (0, 2, 5)"
    by simp
  from w [of 0] h4
  have start: "mesh_position (fst (animateObject 0 orbitObject (meshAt (1, 2, 3)))) = (5, 2, 0)
    \<and> mesh_position (fst (animateObject (2 * pi / 0.5) orbitObject (meshAt (1, 2, 3)))) = (5, 2, 0)"
    by simp
  from h1 h2 h3 h4 quarter start show ?thesis by blast
qed

section \<open>SceneSynchronizer: the reconciliation pass\<close>

subsection \<open>First loop\<close>

lemma removeMesh_fields:
  "meshes (fst (removeMesh k m e)) = AList.delete k (meshes e)"
  "scene (fst (removeMesh k m e)) = removeAll k (scene e)"
  "snd (removeMesh k m e) = [SceneRemove k, GeometryDisposed k (geometry m), MaterialDisposed k]"
  by (simp_all add: removeMesh_def)

lemma removeStale_Cons:
  "removeStale ids ((k, m) # ms) e =
     (if k \<notin> set ids
      then (fst (removeStale ids ms (fst (removeMesh k m e))),
            snd (removeMesh k m e) @ snd (removeStale ids ms (fst (removeMesh k m e))))
      else removeStale ids ms e)"
  by (simp add: case_prod_unfold Let_def)

lemma removeStale_keys:
  "map fst (meshes (fst (removeStale ids ms e))) =
     filter (\<lambda>k. \<not> (k \<in> fst ` set ms \<and> k \<notin> set ids)) (map fst (meshes e))"
proof (induction ms arbitrary: e)
  case Nil
  show ?case by simp
next
  case (Cons p ms)
  obtain k m where p: "p = (k, m)" by (cases p)
  show ?case
  proof (cases "k \<in> set ids")
    case True
    have "(\<lambda>k'. \<not> (k' \<in> fst ` set (p # ms) \<and> k' \<notin> set ids))
        = (\<lambda>k'. \<not> (k' \<in> fst ` set ms \<and> k' \<notin> set ids))"
      using True p by auto
    with True p Cons.IH [of e] show ?thesis by simp
  next
    case False
    have "map fst (meshes (fst (removeStale ids (p # ms) e)))
        = map fst (meshes (fst (removeStale ids ms (fst (removeMesh k m e)))))"
      using False p by (simp add: removeStale_Cons del: removeStale.simps(2))
    also have "\<dots> = filter (\<lambda>k'. \<not> (k' \<in> fst ` set ms \<and> k' \<notin> set ids))
                      (removeAll k (map fst (meshes e)))"
      by (simp add: Cons.IH removeMesh_fields delete_keys)
    also have "\<dots> = filter (\<lambda>k'. \<not> (k' \<in> fst ` set (p # ms) \<and> k' \<notin> set ids)) (map fst (meshes e))"
      using False p by (auto simp add: removeAll_filter_not_eq intro: filter_cong)
    finally show ?thesis .
  qed
qed

lemma removeStale_scene:
  "scene (fst (removeStale ids ms e)) =
     filter (\<lambda>k. \<not> (k \<in> fst ` set ms \<and> k \<notin> set ids)) (scene e)"
proof (induction ms arbitrary: e)
  case Nil
  show ?case by simp
next
  case (Cons p ms)
  obtain k m where p: "p = (k, m)" by (cases p)
  show ?case
  proof (cases "k \<in> set ids")
    case True
    have "(\<lambda>k'. \<not> (k' \<in> fst ` set (p # ms) \<and> k' \<notin> set ids))
        = (\<lambda>k'. \<not> (k' \<in> fst ` set ms \<and> k' \<notin> set ids))"
      using True p by auto
    with True p Cons.IH [of e] show ?thesis by simp
  next
    case False
    have "scene (fst (removeStale ids (p # ms) e))
        = scene (fst (removeStale ids ms (fst (removeMesh k m e))))"
      using False p by (simp add: removeStale_Cons del: removeStale.simps(2))
    also have "\<dots> = filter (\<lambda>k'. \<not> (k' \<in> fst ` set ms \<and> k' \<notin> set ids))
                      (removeAll k (scene e))"
      by (simp add: Cons.IH removeMesh_fields)
    also have "\<dots> = filter (\<lambda>k'. \<not> (k' \<in> fst ` set (p # ms) \<and> k' \<notin> set ids)) (scene e)"
      using False p by (auto simp add: removeAll_filter_not_eq intro: filter_cong)
    finally show ?thesis .
  qed
qed

lemma removeStale_events:
  "snd (removeStale ids ms e) =
     concat (map (\<lambda>(k, m). if k \<notin> set ids
                              then [SceneRemove k, GeometryDisposed k (geometry m), MaterialDisposed k]
                              else []) ms)"
proof (induction ms arbitrary: e)
  case Nil
  show ?case by simp
next
  case (Cons p ms)
  obtain k m where p: "p = (k, m)" by (cases p)
  show ?case
    unfolding p by (simp add: removeStale_Cons Cons.IH removeMesh_fields del: removeStale.simps(2))
qed

lemma removeStale_lookup:
  "map_of (meshes (fst (removeStale ids ms e))) k =
     (if k \<in> fst ` set ms \<and> k \<notin> set ids then None else map_of (meshes e) k)"
proof (induction ms arbitrary: e)
  case Nil
  show ?case by simp
next
  case (Cons p ms)
  obtain k' m where p: "p = (k', m)" by (cases p)
  show ?case
    unfolding p by (simp add: removeStale_Cons Cons.IH removeMesh_fields delete_conv' del: removeStale.simps(2))
qed

lemma removeStale_nothing:
  "fst ` set ms \<subseteq> set ids \<Longrightarrow> removeStale ids ms e = (e, [])"
  by (induction ms arbitrary: e) (auto simp add: removeStale_Cons simp del: removeStale.simps(2))


subsection \<open>Second loop\<close>

lemma updateBasicProps_keeps:
  "userData (updateBasicProps ob m) = userData m"
  "geometry (updateBasicProps ob m) = geometry m"
  by (simp_all add: updateBasicProps_def)

lemma syncObject_None:
  assumes "map_of (meshes e) (obj_id ob) = None"
  shows "syncObject ob e =
     (e\<lparr>scene := scene e @ [obj_id ob],
        meshes := AList.update (obj_id ob) (newMesh ob) (meshes e)\<rparr>,
      [GeometryCreated (obj_id ob) (createGeometry (type ob) (radius ob) (height ob)),
       MaterialCreated (obj_id ob), SceneAdd (obj_id ob)])"
  using assms by (simp add: syncObject_def)

lemma syncObject_Some:
  assumes "map_of (meshes e) (obj_id ob) = Some m"
  shows "syncObject ob e =
     (if userData m \<noteq> (type ob, radius ob, height ob)
      then (e\<lparr>meshes :=
                AList.update (obj_id ob)
                  ((updateBasicProps ob m)
                     \<lparr>geometry := createGeometry (type ob) (radius ob) (height ob),
                      userData := (type ob, radius ob, height ob)\<rparr>)
                  (meshes e)\<rparr>,
            [GeometryDisposed (obj_id ob) (geometry m),
             GeometryCreated (obj_id ob) (createGeometry (type ob) (radius ob) (height ob))])
      else (e\<lparr>meshes := AList.update (obj_id ob) (updateBasicProps ob m) (meshes e)\<rparr>, []))"
proof -
  obtain t r h where u: "userData m = (t, r, h)" by (cases "userData m")
  show ?thesis
    using assms u by (auto simp add: syncObject_def Let_def updateBasicProps_keeps)
qed

lemma syncObject_lookup_other:
  "k \<noteq> obj_id ob \<Longrightarrow> map_of (meshes (fst (syncObject ob e))) k = map_of (meshes e) k"
proof (cases "map_of (meshes e) (obj_id ob)")
  case None
  assume "k \<noteq> obj_id ob"
  then show ?thesis by (simp add: syncObject_None [OF None] update_conv')
next
  case (Some m)
  assume "k \<noteq> obj_id ob"
  then show ?thesis by (simp add: syncObject_Some [OF Some] update_conv')
qed

lemma syncObject_lookup_self:
  "\<exists>m. map_of (meshes (fst (syncObject ob e))) (obj_id ob) = Some m
       \<and> userData m = (type ob, radius ob, height ob)"
proof (cases "map_of (meshes e) (obj_id ob)")
  case None
  show ?thesis by (simp add: syncObject_None [OF None] update_conv' newMesh_def)
next
  case (Some m)
  show ?thesis by (simp add: syncObject_Some [OF Some] update_conv' updateBasicProps_keeps)
qed

lemma syncObject_keys:
  "fst ` set (meshes (fst (syncObject ob e))) = insert (obj_id ob) (fst ` set (meshes e))"
proof (cases "map_of (meshes e) (obj_id ob)")
  case None
  show ?thesis by (simp add: syncObject_None [OF None] dom_update)
next
  case (Some m)
  show ?thesis by (simp add: syncObject_Some [OF Some] dom_update)
qed

lemma syncObject_scene:
  "scene (fst (syncObject ob e)) =
     (if obj_id ob \<in> fst ` set (meshes e) then scene e else scene e @ [obj_id ob])"
proof (cases "map_of (meshes e) (obj_id ob)")
  case None
  then have "obj_id ob \<notin> fst ` set (meshes e)" by (simp add: map_of_eq_None_iff)
  then show ?thesis by (simp add: syncObject_None [OF None])
next
  case (Some m)
  then have "obj_id ob \<in> fst ` set (meshes e)" by (metis map_of_eq_None_iff option.distinct(1))
  then show ?thesis by (simp add: syncObject_Some [OF Some])
qed

lemma syncObject_events_cong:
  "map_of (meshes e) (obj_id ob) = map_of (meshes e') (obj_id ob) \<Longrightarrow>
     snd (syncObject ob e) = snd (syncObject ob e')"
  by (cases "map_of (meshes e') (obj_id ob)") (simp_all add: syncObject_None syncObject_Some)

lemma syncObjects_Cons:
  "syncObjects (ob # obs) e =
     (fst (syncObjects obs (fst (syncObject ob e))),
      snd (syncObject ob e) @ snd (syncObjects obs (fst (syncObject ob e))))"
  by (simp add: case_prod_unfold Let_def)

lemma syncObjects_lookup_other:
  "k \<notin> obj_id ` set obs \<Longrightarrow> map_of (meshes (fst (syncObjects obs e))) k = map_of (meshes e) k"
  by (induction obs arbitrary: e)
     (simp_all add: syncObjects_Cons syncObject_lookup_other del: syncObjects.simps(2))

lemma syncObjects_keys:
  "fst ` set (meshes (fst (syncObjects obs e))) = obj_id ` set obs \<union> fst ` set (meshes e)"
  by (induction obs arbitrary: e)
     (simp_all add: syncObjects_Cons syncObject_keys del: syncObjects.simps(2))

lemma syncObjects_events:
  "distinct (map obj_id obs) \<Longrightarrow>
     snd (syncObjects obs e) = concat (map (\<lambda>ob. snd (syncObject ob e)) obs)"
proof (induction obs arbitrary: e)
  case Nil
  show ?case by simp
next
  case (Cons ob obs)
  let ?e1 = "fst (syncObject ob e)"
  from Cons.prems have d: "distinct (map obj_id obs)" and fresh: "obj_id ob \<notin> obj_id ` set obs"
    by simp_all
  have "snd (syncObject ob' ?e1) = snd (syncObject ob' e)" if "ob' \<in> set obs" for ob'
  proof (rule syncObject_events_cong)
    from that fresh have "obj_id ob' \<noteq> obj_id ob" by (metis imageI)
    then show "map_of (meshes ?e1) (obj_id ob') = map_of (meshes e) (obj_id ob')"
      by (rule syncObject_lookup_other)
  qed
  then have "map (\<lambda>ob'. snd (syncObject ob' ?e1)) obs = map (\<lambda>ob'. snd (syncObject ob' e)) obs"
    by simp
  with Cons.IH [OF d, of ?e1] show ?case
    by (simp add: syncObjects_Cons del: syncObjects.simps(2))
qed

lemma syncObjects_in_sync:
  assumes "distinct (map obj_id obs)" and "ob \<in> set obs"
  shows "\<exists>m. map_of (meshes (fst (syncObjects obs e))) (obj_id ob) = Some m
       \<and> userData m = (type ob, radius ob, height ob)"
  using assms
proof (induction obs arbitrary: e)
  case Nil
  then show ?case by simp
next
  case (Cons a obs)
  let ?e1 = "fst (syncObject a e)"
  show ?case
  proof (cases "ob = a")
    case True
    with Cons.prems have "obj_id ob \<notin> obj_id ` set obs" by simp
    then have "map_of (meshes (fst (syncObjects obs ?e1))) (obj_id ob) = map_of (meshes ?e1) (obj_id ob)"
      by (rule syncObjects_lookup_other)
    with syncObject_lookup_self [of a e] True show ?thesis
      by (simp add: syncObjects_Cons del: syncObjects.simps(2))
  next
    case False
    with Cons.prems have "ob \<in> set obs" and "distinct (map obj_id obs)" by simp_all
    from Cons.IH [OF this(2) this(1), of ?e1] show ?thesis
      by (simp add: syncObjects_Cons del: syncObjects.simps(2))
  qed
qed


subsection \<open>The scene graph holds exactly the registered meshes\<close>

lemma sceneMatches_initial: "sceneMatches initialEngine"
  by (simp add: sceneMatches_def initialEngine_def)

lemma sceneMatches_removeStale:
  assumes "sceneMatches e"
  shows "sceneMatches (fst (removeStale ids ms e))"
proof -
  have "fst ` set (meshes (fst (removeStale ids ms e)))
      = set (map fst (meshes (fst (removeStale ids ms e))))"
    by simp
  also have "\<dots> = {k \<in> fst ` set (meshes e). \<not> (k \<in> fst ` set ms \<and> k \<notin> set ids)}"
    unfolding removeStale_keys by auto
  finally have keys: "fst ` set (meshes (fst (removeStale ids ms e)))
      = {k \<in> fst ` set (meshes e). \<not> (k \<in> fst ` set ms \<and> k \<notin> set ids)}" .
  from assms show ?thesis
    unfolding sceneMatches_def keys
    by (simp add: removeStale_keys removeStale_scene)
qed

lemma sceneMatches_syncObject:
  assumes "sceneMatches e"
  shows "sceneMatches (fst (syncObject ob e))"
proof -
  have k: "map fst (meshes (fst (syncObject ob e))) =
      (if obj_id ob \<in> fst ` set (meshes e) then map fst (meshes e)
       else map fst (meshes e) @ [obj_id ob])"
  proof (cases "map_of (meshes e) (obj_id ob)")
    case None
    then show ?thesis by (simp add: syncObject_None [OF None] update_keys)
  next
    case (Some m)
    then show ?thesis by (simp add: syncObject_Some [OF Some] update_keys)
  qed
  from assms show ?thesis
    unfolding sceneMatches_def syncObject_keys
    by (auto simp add: k syncObject_scene)
qed

lemma sceneMatches_syncObjects:
  "sceneMatches e \<Longrightarrow> sceneMatches (fst (syncObjects obs e))"
  by (induction obs arbitrary: e)
     (simp_all add: syncObjects_Cons sceneMatches_syncObject del: syncObjects.simps(2))

lemma updateTransformControls_fields:
  "meshes (updateTransformControls st e) = meshes e"
  "scene (updateTransformControls st e) = scene e"
  by (simp_all add: updateTransformControls_def split: option.splits)

lemma updateObjectsEffect_initialized:
  assumes "isInitialized st"
  shows "updateObjectsEffect st e =
     (updateTransformControls st
        (fst (syncObjects (objects st)
               (fst (removeStale (map obj_id (objects st)) (meshes e) e)))),
      snd (removeStale (map obj_id (objects st)) (meshes e) e)
      @ snd (syncObjects (objects st)
               (fst (removeStale (map obj_id (objects st)) (meshes e) e))))"
  using assms by (simp add: updateObjectsEffect_def case_prod_unfold Let_def)

lemma sceneMatches_effect:
  "sceneMatches e \<Longrightarrow> sceneMatches (fst (updateObjectsEffect st e))"
proof (cases "isInitialized st")
  case True
  assume "sceneMatches e"
  then have "sceneMatches (fst (syncObjects (objects st)
               (fst (removeStale (map obj_id (objects st)) (meshes e) e))))"
    by (intro sceneMatches_syncObjects sceneMatches_removeStale)
  then show ?thesis
    by (simp add: updateObjectsEffect_initialized [OF True] sceneMatches_def
        updateTransformControls_fields)
next
  case False
  assume "sceneMatches e"
  with False show ?thesis by (simp add: updateObjectsEffect_def)
qed

lemma animate_keys:
  "map fst (meshes (fst (animate t obs e))) = map fst (meshes e)
   \<and> scene (fst (animate t obs e)) = scene e"
proof (induction obs arbitrary: e)
  case Nil
  show ?case by simp
next
  case (Cons ob obs)
  show ?case
  proof (cases "map_of (meshes e) (obj_id ob)")
    case None
    with Cons.IH [of e] show ?thesis by simp
  next
    case (Some m)
    then have "obj_id ob \<in> fst ` set (meshes e)"
      by (metis map_of_eq_None_iff option.distinct(1))
    with Some Cons.IH [of "e\<lparr>meshes := AList.update (obj_id ob) (fst (animateObject t ob m)) (meshes e)\<rparr>"]
    show ?thesis by (simp add: case_prod_unfold Let_def update_keys)
  qed
qed

lemma sceneMatches_animate:
  "sceneMatches e \<Longrightarrow> sceneMatches (fst (animate t obs e))"
proof -
  assume a: "sceneMatches e"
  have "fst ` set (meshes (fst (animate t obs e))) = set (map fst (meshes (fst (animate t obs e))))"
    by simp
  also have "\<dots> = fst ` set (meshes e)"
    unfolding animate_keys [THEN conjunct1] by simp
  finally show ?thesis
    using a unfolding sceneMatches_def by (simp add: animate_keys)
qed

lemma reachable_sceneMatches: "reachable e \<Longrightarrow> sceneMatches e"
  by (induction rule: reachable.induct)
     (simp_all add: sceneMatches_initial sceneMatches_effect sceneMatches_animate)


lemma effect_keys:
  assumes "isInitialized st"
  shows "fst ` set (meshes (fst (updateObjectsEffect st e))) = obj_id ` set (objects st)"
proof -
  let ?ids = "map obj_id (objects st)"
  let ?e1 = "fst (removeStale ?ids (meshes e) e)"
  have "fst ` set (meshes ?e1) = set (map fst (meshes ?e1))" by simp
  also have "\<dots> \<subseteq> set ?ids"
    unfolding removeStale_keys by auto
  finally have "fst ` set (meshes ?e1) \<subseteq> obj_id ` set (objects st)" by simp
  then show ?thesis
    by (auto simp add: updateObjectsEffect_initialized [OF assms] updateTransformControls_fields
        syncObjects_keys)
qed

lemma effect_removed_events:
  assumes "isInitialized st" and "(k, m) \<in> set (meshes e)" and "k \<notin> obj_id ` set (objects st)"
  shows "{SceneRemove k, GeometryDisposed k (geometry m), MaterialDisposed k}
           \<subseteq> set (snd (updateObjectsEffect st e))"
proof -
  from assms(3) have "k \<notin> set (map obj_id (objects st))" by simp
  with assms(2)
  have "{SceneRemove k, GeometryDisposed k (geometry m), MaterialDisposed k}
      \<subseteq> set (snd (removeStale (map obj_id (objects st)) (meshes e) e))"
    unfolding removeStale_events by force
  then show ?thesis
    by (auto simp add: updateObjectsEffect_initialized [OF assms(1)])
qed

text \<open>
  Claim C1.  For every engine state the effect and the animation loop can produce and every
  store snapshot, once the scene is initialised a reconciliation pass leaves the set of
  ids registered in \<open>meshesRef\<close> equal to the set of ids in the store, the scene graph
  holding exactly those ids (each once), and for every mesh whose id is no longer in the
  store the pass removes it from the scene and disposes its geometry and its material.
\<close>

theorem reconciliation_complete:
  assumes "reachable e" and "isInitialized st"
  shows "fst ` set (meshes (fst (updateObjectsEffect st e))) = obj_id ` set (objects st)
     \<and> set (scene (fst (updateObjectsEffect st e))) = obj_id ` set (objects st)
     \<and> distinct (scene (fst (updateObjectsEffect st e)))
     \<and> (\<forall>(k, m) \<in> set (meshes e). k \<notin> obj_id ` set (objects st) \<longrightarrow>
           {SceneRemove k, GeometryDisposed k (geometry m), MaterialDisposed k}
             \<subseteq> set (snd (updateObjectsEffect st e)))"
proof -
  have keys: "fst ` set (meshes (fst (updateObjectsEffect st e))) = obj_id ` set (objects st)"
    by (rule effect_keys [OF assms(2)])
  have "sceneMatches (fst (updateObjectsEffect st e))"
    by (rule sceneMatches_effect [OF reachable_sceneMatches [OF assms(1)]])
  then have sc: "set (scene (fst (updateObjectsEffect st e))) = obj_id ` set (objects st)"
    and d: "distinct (scene (fst (updateObjectsEffect st e)))"
    unfolding sceneMatches_def keys by simp_all
  have ev: "\<forall>(k, m) \<in> set (meshes e). k \<notin> obj_id ` set (objects st) \<longrightarrow>
           {SceneRemove k, GeometryDisposed k (geometry m), MaterialDisposed k}
             \<subseteq> set (snd (updateObjectsEffect st e))"
    using effect_removed_events [OF assms(2)] by blast
  from keys sc d ev show ?thesis by blast
qed

lemma engineTwo_meshes:
  "meshes engineTwo = [(''1'', newMesh primaryTorus), (''2'', newMesh (primaryTorus\<lparr>obj_id := ''2''\<rparr>))]"
  by (simp add: engineTwo_def readyTwo_def twoObjects_def initialState_def initialEngine_def
      updateObjectsEffect_def syncObject_def primaryTorus_def updateTransformControls_fields)

theorem reconciliation_complete_witness:
  "reachable engineTwo \<and> isInitialized readyOne
   \<and> (''2'', newMesh (primaryTorus\<lparr>obj_id := ''2''\<rparr>)) \<in> set (meshes engineTwo)
   \<and> ''2'' \<notin> obj_id ` set (objects readyOne)
   \<and> fst ` set (meshes (fst (updateObjectsEffect readyOne engineTwo))) = {''1''}
   \<and> set (scene (fst (updateObjectsEffect readyOne engineTwo))) = {''1''}
   \<and> {SceneRemove ''2'', GeometryDisposed ''2'' (TorusGeometry 3 1 64 64), MaterialDisposed ''2''}
        \<subseteq> set (snd (updateObjectsEffect readyOne engineTwo))"
proof -
  have h1: "reachable engineTwo"
    unfolding engineTwo_def by (rule reachable_effect [OF reachable_init])
  have h2: "isInitialized readyOne"
    by (simp add: readyOne_def)
  have ids: "obj_id ` set (objects readyOne) = {''1''}"
    by (simp add: readyOne_def initialState_def primaryTorus_def)
  have mem: "(''2'', newMesh (primaryTorus\<lparr>obj_id := ''2''\<rparr>)) \<in> set (meshes engineTwo)"
    by (simp add: engineTwo_meshes)
  have out: "''2'' \<notin> obj_id ` set (objects readyOne)"
    unfolding ids by simp
  have g: "geometry (newMesh (primaryTorus\<lparr>obj_id := ''2''\<rparr>)) = TorusGeometry 3 1 64 64"
    by (simp add: newMesh_def primaryTorus_def createGeometry_def)
  note w = reconciliation_complete [OF h1 h2]
  from w have a: "fst ` set (meshes (fst (updateObjectsEffect readyOne engineTwo))) = {''1''}"
    and b: "set (scene (fst (updateObjectsEffect readyOne engineTwo))) = {''1''}"
    unfolding ids by blast+
  from w mem out
  have c: "{SceneRemove ''2'', GeometryDisposed ''2'' (geometry (newMesh (primaryTorus\<lparr>obj_id := ''2''\<rparr>))),
            MaterialDisposed ''2''} \<subseteq> set (snd (updateObjectsEffect readyOne engineTwo))"
    by blast
  from h1 h2 mem out a b c show ?thesis unfolding g by blast
qed

subsection \<open>The cached triple decides the rebuild\<close>

lemma syncObject_events:
  assumes "map_of (meshes e) (obj_id ob) = Some m"
  shows "snd (syncObject ob e) =
     (if userData m = (type ob, radius ob, height ob) then []
      else [GeometryDisposed (obj_id ob) (geometry m),
            GeometryCreated (obj_id ob) (createGeometry (type ob) (radius ob) (height ob))])"
  by (simp add: syncObject_Some [OF assms])

lemma syncObject_quiet:
  assumes "map_option userData (map_of (meshes e) (obj_id ob)) = Some (type ob, radius ob, height ob)"
  shows "snd (syncObject ob e) = []"
    and "map_option userData (map_of (meshes (fst (syncObject ob e))) k)
         = map_option userData (map_of (meshes e) k)"
proof -
  from assms obtain m where m: "map_of (meshes e) (obj_id ob) = Some m"
    and u: "userData m = (type ob, radius ob, height ob)"
    by auto
  show "snd (syncObject ob e) = []"
    by (simp add: syncObject_events [OF m] u)
  show "map_option userData (map_of (meshes (fst (syncObject ob e))) k)
         = map_option userData (map_of (meshes e) k)"
    using m u by (simp add: syncObject_Some [OF m] update_conv' updateBasicProps_keeps)
qed

lemma syncObjects_quiet:
  "\<forall>ob \<in> set obs. map_option userData (map_of (meshes e) (obj_id ob))
                     = Some (type ob, radius ob, height ob) \<Longrightarrow>
   snd (syncObjects obs e) = []"
proof (induction obs arbitrary: e)
  case Nil
  show ?case by simp
next
  case (Cons ob obs)
  from Cons.prems
  have here: "map_option userData (map_of (meshes e) (obj_id ob)) = Some (type ob, radius ob, height ob)"
    by simp
  have "\<forall>ob' \<in> set obs. map_option userData (map_of (meshes (fst (syncObject ob e))) (obj_id ob'))
                     = Some (type ob', radius ob', height ob')"
    using Cons.prems by (simp add: syncObject_quiet(2) [OF here])
  then have "snd (syncObjects obs (fst (syncObject ob e))) = []"
    by (rule Cons.IH)
  then show ?case
    by (simp add: syncObjects_Cons syncObject_quiet(1) [OF here] del: syncObjects.simps(2))
qed

lemma effect_quiet:
  assumes "isInitialized st"
    and "fst ` set (meshes e) \<subseteq> obj_id ` set (objects st)"
    and "\<forall>ob \<in> set (objects st). map_option userData (map_of (meshes e) (obj_id ob))
                     = Some (type ob, radius ob, height ob)"
  shows "snd (updateObjectsEffect st e) = []"
proof -
  from assms(2) have "fst ` set (meshes e) \<subseteq> set (map obj_id (objects st))" by simp
  then have r: "removeStale (map obj_id (objects st)) (meshes e) e = (e, [])"
    by (rule removeStale_nothing)
  show ?thesis
    by (simp add: updateObjectsEffect_initialized [OF assms(1)] r syncObjects_quiet [OF assms(3)])
qed

lemma syncObjects_userData:
  assumes "distinct (map obj_id obs)" and "ob \<in> set obs"
  shows "map_option userData (map_of (meshes (fst (syncObjects obs e))) (obj_id ob))
         = Some (type ob, radius ob, height ob)"
  using syncObjects_in_sync [OF assms, of e] by auto

lemma effect_userData:
  assumes "isInitialized st" and "distinct (map obj_id (objects st))" and "ob \<in> set (objects st)"
  shows "map_option userData (map_of (meshes (fst (updateObjectsEffect st e))) (obj_id ob))
         = Some (type ob, radius ob, height ob)"
  by (simp add: updateObjectsEffect_initialized [OF assms(1)] updateTransformControls_fields
      syncObjects_userData [OF assms(2,3)])

subsection \<open>Frames leave the cache and the geometry alone\<close>

lemma animateObject_keeps:
  "userData (fst (animateObject t ob m)) = userData m"
  "geometry (fst (animateObject t ob m)) = geometry m"
  by (simp_all add: animateObject_def Let_def split: prod.splits MovementMode.splits)

lemma animate_Some:
  assumes "map_of (meshes e) (obj_id ob) = Some m"
  shows "animate t (ob # obs) e =
     (fst (animate t obs (e\<lparr>meshes := AList.update (obj_id ob) (fst (animateObject t ob m)) (meshes e)\<rparr>)),
      snd (animateObject t ob m)
      @ snd (animate t obs (e\<lparr>meshes := AList.update (obj_id ob) (fst (animateObject t ob m)) (meshes e)\<rparr>)))"
  using assms by (simp add: case_prod_unfold Let_def)

lemma animate_None:
  assumes "map_of (meshes e) (obj_id ob) = None"
  shows "animate t (ob # obs) e = animate t obs e"
  using assms by simp

lemma animate_shape:
  "map_option userData (map_of (meshes (fst (animate t obs e))) k)
     = map_option userData (map_of (meshes e) k)
   \<and> map_option geometry (map_of (meshes (fst (animate t obs e))) k)
     = map_option geometry (map_of (meshes e) k)"
proof (induction obs arbitrary: e)
  case Nil
  show ?case by simp
next
  case (Cons ob obs)
  show ?case
  proof (cases "map_of (meshes e) (obj_id ob)")
    case None
    show ?thesis unfolding animate_None [OF None] by (rule Cons.IH)
  next
    case (Some m)
    let ?e1 = "e\<lparr>meshes := AList.update (obj_id ob) (fst (animateObject t ob m)) (meshes e)\<rparr>"
    have "map_option userData (map_of (meshes ?e1) k) = map_option userData (map_of (meshes e) k)"
      and "map_option geometry (map_of (meshes ?e1) k) = map_option geometry (map_of (meshes e) k)"
      using Some by (simp_all add: update_conv' animateObject_keeps)
    with Cons.IH [of ?e1] show ?thesis
      unfolding animate_Some [OF Some] by simp
  qed
qed

lemma animateFrames_shape:
  "map_option userData (map_of (meshes (animateFrames fs e)) k)
     = map_option userData (map_of (meshes e) k)
   \<and> map_option geometry (map_of (meshes (animateFrames fs e)) k)
     = map_option geometry (map_of (meshes e) k)"
proof (induction fs arbitrary: e)
  case Nil
  show ?case by simp
next
  case (Cons f fs)
  obtain t obs where f: "f = (t, obs)" by (cases f)
  show ?case unfolding f animateFrames.simps
    using Cons.IH [of "fst (animate t obs e)"] animate_shape [of t obs e k] by simp
qed

lemma animateFrames_keys:
  "map fst (meshes (animateFrames fs e)) = map fst (meshes e)"
proof (induction fs arbitrary: e)
  case Nil
  show ?case by simp
next
  case (Cons f fs)
  obtain t obs where f: "f = (t, obs)" by (cases f)
  show ?case unfolding f animateFrames.simps
    using Cons.IH [of "fst (animate t obs e)"] animate_keys [of t obs e] by simp
qed

lemma animateFrames_keys_set:
  "fst ` set (meshes (animateFrames fs e)) = fst ` set (meshes e)"
proof -
  have "set (map fst (meshes (animateFrames fs e))) = set (map fst (meshes e))"
    unfolding animateFrames_keys ..
  then show ?thesis by simp
qed

text \<open>
  Claim C2.  Once the scene is initialised and the store has unique ids, a reconciliation
  pass that follows another with the same object list (other state, such as the selection,
  may differ, and any number of animation frames may run in between) performs nothing on
  graphics resources: its event list is empty, so it makes zero geometry or material
  allocations and zero geometry or material disposals.
\<close>

theorem reconciliation_idempotent:
  assumes "isInitialized st" and "distinct (map obj_id (objects st))"
    and "isInitialized st'" and "objects st' = objects st"
  shows "snd (updateObjectsEffect st' (animateFrames fs (fst (updateObjectsEffect st e)))) = []
     \<and> filter isAllocation
          (snd (updateObjectsEffect st' (animateFrames fs (fst (updateObjectsEffect st e))))) = []
     \<and> filter isDisposal
          (snd (updateObjectsEffect st' (animateFrames fs (fst (updateObjectsEffect st e))))) = []"
proof -
  let ?e1 = "animateFrames fs (fst (updateObjectsEffect st e))"
  have keys: "fst ` set (meshes ?e1) \<subseteq> obj_id ` set (objects st')"
    unfolding animateFrames_keys_set effect_keys [OF assms(1)] assms(4) by simp
  have sync: "\<forall>ob \<in> set (objects st'). map_option userData (map_of (meshes ?e1) (obj_id ob))
                     = Some (type ob, radius ob, height ob)"
    unfolding assms(4) animateFrames_shape [THEN conjunct1]
    using effect_userData [OF assms(1,2)] by blast
  have "snd (updateObjectsEffect st' ?e1) = []"
    by (rule effect_quiet [OF assms(3) keys sync])
  then show ?thesis by simp
qed


theorem reconciliation_idempotent_witness:
  "isInitialized readyTwo \<and> distinct (map obj_id (objects readyTwo))
   \<and> isInitialized (readyTwo\<lparr>selectedId := Some ''2''\<rparr>)
   \<and> objects (readyTwo\<lparr>selectedId := Some ''2''\<rparr>) = objects readyTwo
   \<and> map isAllocation (snd (updateObjectsEffect readyTwo initialEngine))
       = [True, True, False, True, True, False]
   \<and> snd (updateObjectsEffect (readyTwo\<lparr>selectedId := Some ''2''\<rparr>)
            (animateFrames [(0, objects readyTwo)] (fst (updateObjectsEffect readyTwo initialEngine))))
       = []"
proof -
  have h1: "isInitialized readyTwo"
    by (simp add: readyTwo_def)
  have h2: "distinct (map obj_id (objects readyTwo))"
    by (simp add: readyTwo_def twoObjects_def primaryTorus_def)
  have h3: "isInitialized (readyTwo\<lparr>selectedId := Some ''2''\<rparr>)"
    by (simp add: readyTwo_def)
  have h4: "objects (readyTwo\<lparr>selectedId := Some ''2''\<rparr>) = objects readyTwo"
    by simp
  have first: "map isAllocation (snd (updateObjectsEffect readyTwo initialEngine))
       = [True, True, False, True, True, False]"
    by (simp add: readyTwo_def twoObjects_def initialState_def initialEngine_def
      updateObjectsEffect_def syncObject_def primaryTorus_def)
  from reconciliation_idempotent [OF h1 h2 h3 h4, of "[(0, objects readyTwo)]" initialEngine]
    h1 h2 h3 h4 first
  show ?thesis by blast
qed

subsection \<open>One object out of step\<close>

lemma concat_map_single:
  assumes "distinct (map key xs)" and "x \<in> set xs"
    and "\<forall>y \<in> set xs. key y \<noteq> key x \<longrightarrow> f y = []"
  shows "concat (map f xs) = f x"
  using assms
proof (induction xs)
  case Nil
  then show ?case by simp
next
  case (Cons a xs)
  show ?case
  proof (cases "a = x")
    case True
    with Cons.prems(1) have "key x \<notin> key ` set xs" by simp
    then have "\<forall>y \<in> set xs. key y \<noteq> key x" by (metis imageI)
    with Cons.prems(3) have "\<forall>y \<in> set xs. f y = []" by simp
    then have "concat (map f xs) = []" by simp
    with True show ?thesis by simp
  next
    case False
    with Cons.prems have x: "x \<in> set xs" and d: "distinct (map key xs)"
      and rest: "\<forall>y \<in> set xs. key y \<noteq> key x \<longrightarrow> f y = []"
      by simp_all
    from Cons.prems(1) have "key a \<notin> key ` set xs" by simp
    with x have "key a \<noteq> key x" by (metis imageI)
    with Cons.prems(3) have "f a = []" by simp
    with Cons.IH [OF d x rest] show ?thesis by simp
  qed
qed

lemma syncObjects_lookup_of:
  assumes "distinct (map obj_id obs)" and "ob \<in> set obs"
  shows "map_of (meshes (fst (syncObjects obs e))) (obj_id ob)
       = map_of (meshes (fst (syncObject ob e))) (obj_id ob)"
  using assms
proof (induction obs arbitrary: e)
  case Nil
  then show ?case by simp
next
  case (Cons a obs)
  let ?e1 = "fst (syncObject a e)"
  show ?case
  proof (cases "ob = a")
    case True
    with Cons.prems have "obj_id ob \<notin> obj_id ` set obs" by simp
    then have "map_of (meshes (fst (syncObjects obs ?e1))) (obj_id ob) = map_of (meshes ?e1) (obj_id ob)"
      by (rule syncObjects_lookup_other)
    with True show ?thesis
      by (simp add: syncObjects_Cons del: syncObjects.simps(2))
  next
    case False
    with Cons.prems have in_rest: "ob \<in> set obs" and d: "distinct (map obj_id obs)"
      and fresh: "obj_id a \<notin> obj_id ` set obs"
      by simp_all
    from in_rest fresh have ne: "obj_id ob \<noteq> obj_id a" by (metis imageI)
    have same: "map_of (meshes ?e1) (obj_id ob) = map_of (meshes e) (obj_id ob)"
      by (rule syncObject_lookup_other [OF ne])
    have "map_of (meshes (fst (syncObject ob ?e1))) (obj_id ob)
        = map_of (meshes (fst (syncObject ob e))) (obj_id ob)"
    proof (cases "map_of (meshes e) (obj_id ob)")
      case None
      with same have n1: "map_of (meshes ?e1) (obj_id ob) = None" by simp
      show ?thesis
        by (simp add: syncObject_None [OF None] syncObject_None [OF n1] update_conv')
    next
      case (Some m)
      with same have s1: "map_of (meshes ?e1) (obj_id ob) = Some m" by simp
      show ?thesis
        by (simp add: syncObject_Some [OF Some] syncObject_Some [OF s1] update_conv')
    qed
    with Cons.IH [OF d in_rest, of ?e1] show ?thesis
      by (simp add: syncObjects_Cons del: syncObjects.simps(2))
  qed
qed


lemma effect_one_changed:
  assumes "isInitialized st" and "distinct (map obj_id (objects st))"
    and "fst ` set (meshes e) \<subseteq> obj_id ` set (objects st)"
    and "ob \<in> set (objects st)"
    and "\<forall>ob' \<in> set (objects st). obj_id ob' \<noteq> obj_id ob \<longrightarrow>
           map_option userData (map_of (meshes e) (obj_id ob'))
             = Some (type ob', radius ob', height ob')"
  shows "snd (updateObjectsEffect st e) = snd (syncObject ob e)"
    and "map_of (meshes (fst (updateObjectsEffect st e))) (obj_id ob)
         = map_of (meshes (fst (syncObject ob e))) (obj_id ob)"
proof -
  from assms(3) have "fst ` set (meshes e) \<subseteq> set (map obj_id (objects st))" by simp
  then have r: "removeStale (map obj_id (objects st)) (meshes e) e = (e, [])"
    by (rule removeStale_nothing)
  have quiet: "\<forall>ob' \<in> set (objects st). obj_id ob' \<noteq> obj_id ob \<longrightarrow> snd (syncObject ob' e) = []"
    using assms(5) syncObject_quiet(1) by blast
  have "snd (syncObjects (objects st) e) = concat (map (\<lambda>ob'. snd (syncObject ob' e)) (objects st))"
    by (rule syncObjects_events [OF assms(2)])
  also have "\<dots> = snd (syncObject ob e)"
    by (rule concat_map_single [OF assms(2) assms(4) quiet])
  finally show "snd (updateObjectsEffect st e) = snd (syncObject ob e)"
    by (simp add: updateObjectsEffect_initialized [OF assms(1)] r)
  show "map_of (meshes (fst (updateObjectsEffect st e))) (obj_id ob)
         = map_of (meshes (fst (syncObject ob e))) (obj_id ob)"
    by (simp add: updateObjectsEffect_initialized [OF assms(1)] r updateTransformControls_fields
        syncObjects_lookup_of [OF assms(2) assms(4)])
qed

lemma updateSelectedObject_fields:
  assumes "selectedId st = Some sid" and "sid \<noteq> []"
  shows "objects (updateSelectedObject us st)
         = map (\<lambda>ob. if obj_id ob = sid then spread ob us else ob) (objects st)"
    and "isInitialized (updateSelectedObject us st) = isInitialized st"
  using assms by (simp_all add: updateSelectedObject_def)

lemma syncObject_rebuild:
  assumes "map_of (meshes e) (obj_id ob) = Some m"
    and "userData m \<noteq> (type ob, radius ob, height ob)"
  shows "snd (syncObject ob e) =
           [GeometryDisposed (obj_id ob) (geometry m),
            GeometryCreated (obj_id ob) (createGeometry (type ob) (radius ob) (height ob))]"
    and "\<exists>m2. map_of (meshes (fst (syncObject ob e))) (obj_id ob) = Some m2
           \<and> geometry m2 = createGeometry (type ob) (radius ob) (height ob)
           \<and> userData m2 = (type ob, radius ob, height ob)"
  using assms(2) by (simp_all add: syncObject_Some [OF assms(1)] update_conv')


text \<open>
  Claim C3.  Take a store with unique ids that has been reconciled, so that the selected
  object has a live node (frames may have run since).  If \<open>updateSelectedObject\<close> then
  changes only \<open>color\<close>, the next pass disposes and builds nothing.  If it changes
  \<open>radius\<close> to a different value, the next pass disposes the node's geometry and creates
  the geometry of the new radius, and does nothing else; the node then holds the new
  geometry and the new cached triple.  In general, for an object whose node exists, the
  pass rebuilds exactly when the cached \<open>(type, radius, height)\<close> differs from the
  object's.
\<close>

theorem rebuild_only_on_shape_change:
  assumes "isInitialized st" and "distinct (map obj_id (objects st))"
    and "selectedId st = Some sid" and "sid \<noteq> []"
    and "ob \<in> set (objects st)" and "obj_id ob = sid"
    and "e1 = animateFrames fs (fst (updateObjectsEffect st e))"
  shows
    "snd (updateObjectsEffect (updateSelectedObject [Set_color c] st) e1) = []
     \<and> (r \<noteq> radius ob \<longrightarrow>
          (\<exists>m. map_of (meshes e1) sid = Some m
             \<and> snd (updateObjectsEffect (updateSelectedObject [Set_radius r] st) e1)
                 = [GeometryDisposed sid (geometry m),
                    GeometryCreated sid (createGeometry (type ob) r (height ob))])
          \<and> (\<exists>m2. map_of (meshes (fst (updateObjectsEffect (updateSelectedObject [Set_radius r] st) e1))) sid
                   = Some m2
             \<and> geometry m2 = createGeometry (type ob) r (height ob)
             \<and> userData m2 = (type ob, r, height ob)))
     \<and> (map_of (meshes e') (obj_id ob') = Some m' \<longrightarrow>
          snd (syncObject ob' e') =
            (if userData m' = (type ob', radius ob', height ob') then []
             else [GeometryDisposed (obj_id ob') (geometry m'),
                   GeometryCreated (obj_id ob')
                     (createGeometry (type ob') (radius ob') (height ob'))]))"
proof (intro conjI impI)
  have keys1: "fst ` set (meshes e1) = obj_id ` set (objects st)"
    unfolding assms(7) animateFrames_keys_set by (rule effect_keys [OF assms(1)])
  have sync1: "map_option userData (map_of (meshes e1) (obj_id x))
                 = Some (type x, radius x, height x)" if "x \<in> set (objects st)" for x
    unfolding assms(7) animateFrames_shape [THEN conjunct1]
    by (rule effect_userData [OF assms(1,2) that])
  show "snd (updateObjectsEffect (updateSelectedObject [Set_color c] st) e1) = []"
  proof (rule effect_quiet)
    let ?st = "updateSelectedObject [Set_color c] st"
    have obs: "objects ?st = map (\<lambda>x. if obj_id x = sid then x\<lparr>color := c\<rparr> else x) (objects st)"
      by (simp add: updateSelectedObject_fields(1) [OF assms(3,4)] spread_def)
    show "isInitialized ?st"
      by (simp add: updateSelectedObject_fields(2) [OF assms(3,4)] assms(1))
    have "map obj_id (objects ?st) = map obj_id (objects st)"
      unfolding obs by simp
    then have "set (map obj_id (objects ?st)) = set (map obj_id (objects st))"
      by (rule arg_cong)
    then have ids: "obj_id ` set (objects ?st) = obj_id ` set (objects st)"
      by simp
    show "fst ` set (meshes e1) \<subseteq> obj_id ` set (objects ?st)"
      unfolding ids keys1 by simp
    show "\<forall>x \<in> set (objects ?st). map_option userData (map_of (meshes e1) (obj_id x))
                     = Some (type x, radius x, height x)"
    proof
      fix x assume "x \<in> set (objects ?st)"
      then obtain x0 where x0: "x0 \<in> set (objects st)"
        and x: "x = (if obj_id x0 = sid then x0\<lparr>color := c\<rparr> else x0)"
        unfolding obs by auto
      from x have "obj_id x = obj_id x0" "type x = type x0" "radius x = radius x0"
        "height x = height x0"
        by simp_all
      with sync1 [OF x0] show "map_option userData (map_of (meshes e1) (obj_id x))
                     = Some (type x, radius x, height x)"
        by simp
    qed
  qed
next
  show "snd (syncObject ob' e') =
            (if userData m' = (type ob', radius ob', height ob') then []
             else [GeometryDisposed (obj_id ob') (geometry m'),
                   GeometryCreated (obj_id ob')
                     (createGeometry (type ob') (radius ob') (height ob'))])"
    if "map_of (meshes e') (obj_id ob') = Some m'"
    by (rule syncObject_events [OF that])
next
  assume r: "r \<noteq> radius ob"
  have keys1: "fst ` set (meshes e1) = obj_id ` set (objects st)"
    unfolding assms(7) animateFrames_keys_set by (rule effect_keys [OF assms(1)])
  have sync1: "map_option userData (map_of (meshes e1) (obj_id x))
                 = Some (type x, radius x, height x)" if "x \<in> set (objects st)" for x
    unfolding assms(7) animateFrames_shape [THEN conjunct1]
    by (rule effect_userData [OF assms(1,2) that])
  let ?st = "updateSelectedObject [Set_radius r] st"
  let ?ob = "ob\<lparr>radius := r\<rparr>"
  have obs: "objects ?st = map (\<lambda>x. if obj_id x = sid then x\<lparr>radius := r\<rparr> else x) (objects st)"
    by (simp add: updateSelectedObject_fields(1) [OF assms(3,4)] spread_def)
  have init: "isInitialized ?st"
    by (simp add: updateSelectedObject_fields(2) [OF assms(3,4)] assms(1))
  have idl: "map obj_id (objects ?st) = map obj_id (objects st)"
    unfolding obs by simp
  then have d: "distinct (map obj_id (objects ?st))"
    using assms(2) by simp
  have "set (map obj_id (objects ?st)) = set (map obj_id (objects st))"
    unfolding idl ..
  then have keys: "fst ` set (meshes e1) \<subseteq> obj_id ` set (objects ?st)"
    unfolding keys1 by simp
  have mem: "?ob \<in> set (objects ?st)"
    unfolding obs using assms(5,6) by (auto simp add: image_iff)
  have others: "\<forall>x \<in> set (objects ?st). obj_id x \<noteq> obj_id ?ob \<longrightarrow>
           map_option userData (map_of (meshes e1) (obj_id x)) = Some (type x, radius x, height x)"
  proof (intro ballI impI)
    fix x assume "x \<in> set (objects ?st)" and ne: "obj_id x \<noteq> obj_id ?ob"
    then obtain x0 where x0: "x0 \<in> set (objects st)"
      and x: "x = (if obj_id x0 = sid then x0\<lparr>radius := r\<rparr> else x0)"
      unfolding obs by auto
    from x ne assms(6) have "x = x0" by (auto split: if_splits)
    with sync1 [OF x0] show "map_option userData (map_of (meshes e1) (obj_id x))
        = Some (type x, radius x, height x)"
      by simp
  qed
  from sync1 [OF assms(5)] obtain m where m: "map_of (meshes e1) (obj_id ?ob) = Some m"
    and u: "userData m = (type ob, radius ob, height ob)"
    by auto
  from u r have stale: "userData m \<noteq> (type ?ob, radius ?ob, height ?ob)" by simp
  note one = effect_one_changed [OF init d keys mem others]
  note rb = syncObject_rebuild [OF m stale]
  have ev: "snd (updateObjectsEffect ?st e1)
      = [GeometryDisposed sid (geometry m), GeometryCreated sid (createGeometry (type ob) r (height ob))]"
    unfolding one(1) rb(1) using assms(6) by simp
  from m assms(6) have m': "map_of (meshes e1) sid = Some m" by simp
  from m' ev
  show "\<exists>m. map_of (meshes e1) sid = Some m
             \<and> snd (updateObjectsEffect ?st e1)
                 = [GeometryDisposed sid (geometry m),
                    GeometryCreated sid (createGeometry (type ob) r (height ob))]"
    by blast
  from rb(2) one(2) assms(6)
  show "\<exists>m2. map_of (meshes (fst (updateObjectsEffect ?st e1))) sid = Some m2
             \<and> geometry m2 = createGeometry (type ob) r (height ob)
             \<and> userData m2 = (type ob, r, height ob)"
    by simp
qed


theorem rebuild_only_on_shape_change_witness:
  "isInitialized readyTwo \<and> distinct (map obj_id (objects readyTwo))
   \<and> selectedId readyTwo = Some ''1'' \<and> ''1'' \<noteq> []
   \<and> primaryTorus \<in> set (objects readyTwo) \<and> obj_id primaryTorus = ''1''
   \<and> engineTwo = animateFrames [] (fst (updateObjectsEffect readyTwo initialEngine))
   \<and> (4::real) \<noteq> radius primaryTorus
   \<and> map_of (meshes engineTwo) (obj_id primaryTorus) = Some (newMesh primaryTorus)
   \<and> snd (updateObjectsEffect (updateSelectedObject [Set_color ''#ff0000''] readyTwo) engineTwo) = []
   \<and> snd (updateObjectsEffect (updateSelectedObject [Set_radius 4] readyTwo) engineTwo)
       = [GeometryDisposed ''1'' (TorusGeometry 3 1 64 64),
          GeometryCreated ''1'' (TorusGeometry 4 (4 / 3) 64 64)]
   \<and> snd (syncObject primaryTorus engineTwo) = []"
proof -
  have h1: "isInitialized readyTwo"
    by (simp add: readyTwo_def)
  have h2: "distinct (map obj_id (objects readyTwo))"
    by (simp add: readyTwo_def twoObjects_def primaryTorus_def)
  have h3: "selectedId readyTwo = Some ''1''"
    by (simp add: readyTwo_def twoObjects_def initialState_def)
  have h4: "''1'' \<noteq> []"
    by simp
  have h5: "primaryTorus \<in> set (objects readyTwo)"
    by (simp add: readyTwo_def twoObjects_def)
  have h6: "obj_id primaryTorus = ''1''"
    by (simp add: primaryTorus_def)
  have h7: "engineTwo = animateFrames [] (fst (updateObjectsEffect readyTwo initialEngine))"
    by (simp add: engineTwo_def)
  have h8: "(4::real) \<noteq> radius primaryTorus"
    by (simp add: primaryTorus_def)
  have h9: "map_of (meshes engineTwo) (obj_id primaryTorus) = Some (newMesh primaryTorus)"
    by (simp add: engineTwo_meshes h6)
  have g: "geometry (newMesh primaryTorus) = TorusGeometry 3 1 64 64"
    "createGeometry (type primaryTorus) 4 (height primaryTorus) = TorusGeometry 4 (4 / 3) 64 64"
    "userData (newMesh primaryTorus) = (type primaryTorus, radius primaryTorus, height primaryTorus)"
    by (simp_all add: newMesh_def primaryTorus_def createGeometry_def)
  note w = rebuild_only_on_shape_change [OF h1 h2 h3 h4 h5 h6 h7,
      of "''#ff0000''" 4 engineTwo primaryTorus "newMesh primaryTorus"]
  from w have a: "snd (updateObjectsEffect (updateSelectedObject [Set_color ''#ff0000''] readyTwo) engineTwo) = []"
    by blast
  from w h8 obtain m where "map_of (meshes engineTwo) ''1'' = Some m"
    and ev: "snd (updateObjectsEffect (updateSelectedObject [Set_radius 4] readyTwo) engineTwo)
       = [GeometryDisposed ''1'' (geometry m),
          GeometryCreated ''1'' (createGeometry (type primaryTorus) 4 (height primaryTorus))]"
    by blast
  with h9 h6 have "m = newMesh primaryTorus" by simp
  with ev have b: "snd (updateObjectsEffect (updateSelectedObject [Set_radius 4] readyTwo) engineTwo)
       = [GeometryDisposed ''1'' (TorusGeometry 3 1 64 64),
          GeometryCreated ''1'' (TorusGeometry 4 (4 / 3) 64 64)]"
    by (simp add: g)
  from w h9 have c: "snd (syncObject primaryTorus engineTwo) = []"
    by (simp add: g)
  from h1 h2 h3 h4 h5 h6 h7 h8 h9 a b c show ?thesis by blast
qed

section \<open>The frame loop and the per-object step\<close>

text \<open>With unique ids in the store, a frame of the loop advances the mesh of each object by
  \<open>animateObject\<close> and queues what the objects queue, so \<open>frames\<close> describes the mesh of
  one object inside the engine.\<close>

lemma animate_lookup_other:
  "k \<notin> obj_id ` set obs \<Longrightarrow> map_of (meshes (fst (animate t obs e))) k = map_of (meshes e) k"
proof (induction obs arbitrary: e)
  case Nil
  show ?case by simp
next
  case (Cons a obs)
  then have k: "k \<noteq> obj_id a" and rest: "k \<notin> obj_id ` set obs" by simp_all
  show ?case
  proof (cases "map_of (meshes e) (obj_id a)")
    case None
    show ?thesis unfolding animate_None [OF None] by (rule Cons.IH [OF rest])
  next
    case (Some m)
    show ?thesis
      unfolding animate_Some [OF Some] using k
      by (simp add: Cons.IH [OF rest] update_conv')
  qed
qed

lemma animate_lookup_of:
  assumes "distinct (map obj_id obs)" and "ob \<in> set obs"
    and "map_of (meshes e) (obj_id ob) = Some m"
  shows "map_of (meshes (fst (animate t obs e))) (obj_id ob) = Some (fst (animateObject t ob m))"
  using assms
proof (induction obs arbitrary: e)
  case Nil
  then show ?case by simp
next
  case (Cons a obs)
  show ?case
  proof (cases "ob = a")
    case True
    from Cons.prems(1) have fresh: "obj_id a \<notin> obj_id ` set obs" by simp
    from Cons.prems(3) True have m: "map_of (meshes e) (obj_id a) = Some m" by simp
    have "map_of (meshes (fst (animate t (a # obs) e))) (obj_id a) = Some (fst (animateObject t a m))"
      unfolding animate_Some [OF m]
      by (simp add: animate_lookup_other [OF fresh] update_conv')
    with True show ?thesis by simp
  next
    case False
    with Cons.prems have in_rest: "ob \<in> set obs" and d: "distinct (map obj_id obs)"
      and fresh: "obj_id a \<notin> obj_id ` set obs"
      by simp_all
    from in_rest fresh have ne: "obj_id ob \<noteq> obj_id a" by (metis imageI)
    show ?thesis
    proof (cases "map_of (meshes e) (obj_id a)")
      case None
      show ?thesis
        unfolding animate_None [OF None] by (rule Cons.IH [OF d in_rest Cons.prems(3)])
    next
      case (Some ma)
      let ?e1 = "e\<lparr>meshes := AList.update (obj_id a) (fst (animateObject t a ma)) (meshes e)\<rparr>"
      have "map_of (meshes ?e1) (obj_id ob) = Some m"
        using ne Cons.prems(3) by (simp add: update_conv')
      from Cons.IH [OF d in_rest this] show ?thesis
        unfolding animate_Some [OF Some] by simp
    qed
  qed
qed

lemma animate_deferred:
  "distinct (map obj_id obs) \<Longrightarrow>
   snd (animate t obs e) =
     concat (map (\<lambda>ob. case map_of (meshes e) (obj_id ob) of
                          None \<Rightarrow> [] | Some m \<Rightarrow> snd (animateObject t ob m)) obs)"
proof (induction obs arbitrary: e)
  case Nil
  show ?case by simp
next
  case (Cons a obs)
  let ?F = "\<lambda>e ob. case map_of (meshes e) (obj_id ob) of
                          None \<Rightarrow> [] | Some m \<Rightarrow> snd (animateObject t ob m)"
  from Cons.prems have d: "distinct (map obj_id obs)" and fresh: "obj_id a \<notin> obj_id ` set obs"
    by simp_all
  show ?case
  proof (cases "map_of (meshes e) (obj_id a)")
    case None
    show ?thesis
      unfolding animate_None [OF None] using None by (simp add: Cons.IH [OF d])
  next
    case (Some ma)
    let ?e1 = "e\<lparr>meshes := AList.update (obj_id a) (fst (animateObject t a ma)) (meshes e)\<rparr>"
    have eq: "map (?F ?e1) obs = map (?F e) obs"
    proof (rule map_cong [OF refl])
      fix ob assume "ob \<in> set obs"
      with fresh have "obj_id ob \<noteq> obj_id a" by (metis imageI)
      then have "map_of (meshes ?e1) (obj_id ob) = map_of (meshes e) (obj_id ob)"
        by (simp add: update_conv')
      then show "?F ?e1 ob = ?F e ob" by (simp only:)
    qed
    have "snd (animate t (a # obs) e) = snd (animateObject t a ma) @ snd (animate t obs ?e1)"
      unfolding animate_Some [OF Some] by (simp only: snd_conv)
    also have "snd (animate t obs ?e1) = concat (map (?F ?e1) obs)"
      by (rule Cons.IH [OF d])
    also have "\<dots> = concat (map (?F e) obs)"
      by (simp only: eq)
    also have "snd (animateObject t a ma) @ concat (map (?F e) obs) = concat (map (?F e) (a # obs))"
      using Some by simp
    finally show ?thesis .
  qed
qed

lemma animateFrames_append:
  "animateFrames (fs @ gs) e = animateFrames gs (animateFrames fs e)"
proof (induction fs arbitrary: e)
  case Nil
  show ?case by simp
next
  case (Cons f fs)
  obtain t obs where f: "f = (t, obs)" by (cases f)
  show ?case unfolding f by (simp add: Cons.IH)
qed

lemma animateFrames_frames:
  assumes "distinct (map obj_id obs)" and "ob \<in> set obs"
    and "map_of (meshes e) (obj_id ob) = Some m"
  shows "map_of (meshes (animateFrames (map (\<lambda>k. (clock k, obs)) [0..<n]) e)) (obj_id ob)
         = Some (fst (frames clock ob n m))"
proof (induction n)
  case 0
  show ?case by (simp add: assms(3))
next
  case (Suc n)
  have "animateFrames (map (\<lambda>k. (clock k, obs)) [0..<Suc n]) e
      = fst (animate (clock n) obs (animateFrames (map (\<lambda>k. (clock k, obs)) [0..<n]) e))"
    by (simp add: animateFrames_append)
  then show ?case
    by (simp add: animate_lookup_of [OF assms(1,2) Suc.IH])
qed

section \<open>The gizmo commit keeps home and position together\<close>

lemma objectChange_home:
  assumes "attached e = Some k" and "map_of (meshes e) k = Some obj"
    and "selectedId st = Some sid" and "sid \<noteq> []"
    and "ob \<in> set (objects (objectChange e st))" and "obj_id ob = sid"
  shows "position ob = mesh_position obj \<and> originalPosition ob = position ob"
proof -
  let ?f = "\<lambda>ob. if obj_id ob = sid
                 then ob\<lparr>position := mesh_position obj, rotation := mesh_rotation obj,
                         scale := mesh_scale obj, originalPosition := mesh_position obj\<rparr>
                 else ob"
  have "objects (objectChange e st) = map ?f (objects st)"
    using assms(1-4) by (simp add: objectChange_def)
  with assms(5) have "ob \<in> ?f ` set (objects st)" by simp
  then obtain ob0 where ob: "ob = ?f ob0" by (rule imageE)
  show ?thesis
  proof (cases "obj_id ob0 = sid")
    case True
    with ob show ?thesis by simp
  next
    case False
    with ob assms(6) show ?thesis by simp
  qed
qed

end
